theory Spec2Isabelle
  imports Complex_Main "HOL-Library.Word"
begin

section \<open>Strings and byte arrays of the host language\<close>

text \<open>
  A JavaScript string is a sequence of UTF-16 code units; a code unit is modelled by its
  number. A \<^verbatim>\<open>Uint8Array\<close> is a list of 8-bit words. Source literals are written
  \<open>str ''...''\<close>.
\<close>

type_synonym code_unit = nat
type_synonym jsstring = "code_unit list"
type_synonym bytes = "8 word list"

definition str :: "string \<Rightarrow> jsstring" where
  "str cs = map of_char cs"

text \<open>
  \<^verbatim>\<open>String.prototype.trim\<close> strips the code units of WhiteSpace and LineTerminator
  (ECMA-262): TAB, LF, VT, FF, CR, SPACE, NBSP, U+1680, U+2000..U+200A, U+2028, U+2029,
  U+202F, U+205F, U+3000 and U+FEFF.
\<close>

definition isWhiteSpace :: "code_unit \<Rightarrow> bool" where
  "isWhiteSpace c \<longleftrightarrow>
     c \<in> set [9, 10, 11, 12, 13, 32, 160, 5760, 8192, 8193, 8194, 8195, 8196, 8197, 8198,
               8199, 8200, 8201, 8202, 8232, 8233, 8239, 8287, 12288, 65279]"

definition trim :: "jsstring \<Rightarrow> jsstring" where
  "trim s = rev (dropWhile isWhiteSpace (rev (dropWhile isWhiteSpace s)))"

text \<open>
  \<^verbatim>\<open>s.split(d)\<close> for a one-unit separator: the pieces between the separators, the empty
  string giving one empty piece. \<open>split_from\<close> carries the piece being read, reversed.
\<close>

fun split_from :: "code_unit \<Rightarrow> jsstring \<Rightarrow> jsstring \<Rightarrow> jsstring list" where
  "split_from d acc [] = [rev acc]"
| "split_from d acc (c # cs) =
     (if c = d then rev acc # split_from d [] cs else split_from d (c # acc) cs)"

definition split :: "code_unit \<Rightarrow> jsstring \<Rightarrow> jsstring list" where
  "split d s = split_from d [] s"

text \<open>\<^verbatim>\<open>xs.join(sep)\<close>: the empty array gives the empty string.\<close>

fun join :: "jsstring \<Rightarrow> jsstring list \<Rightarrow> jsstring" where
  "join sep [] = []"
| "join sep [x] = x"
| "join sep (x # y # ys) = x @ sep @ join sep (y # ys)"

definition DOT :: code_unit where
  "DOT = of_char CHR ''.''"

section \<open>Constants of the configuration dialog\<close>

text \<open>
  The fields \<^verbatim>\<open>value\<close>, \<^verbatim>\<open>label\<close> and \<^verbatim>\<open>length\<close> of a cipher method are \<open>m_value\<close>,
  \<open>m_label\<close> and \<open>m_length\<close> here, and those of a select option carry the prefix \<open>o_\<close>.
\<close>

record shadowsocks_method =
  m_value :: jsstring
  m_label :: jsstring
  m_length :: nat

definition SHADOWSOCKS_ENCRYPTION_METHODS :: "shadowsocks_method list" where
  "SHADOWSOCKS_ENCRYPTION_METHODS =
     [\<lparr>m_value = str ''2022-blake3-aes-128-gcm'', m_label = str ''2022-blake3-aes-128-gcm'',
        m_length = 16\<rparr>,
      \<lparr>m_value = str ''2022-blake3-aes-256-gcm'', m_label = str ''2022-blake3-aes-256-gcm'',
        m_length = 32\<rparr>]"

datatype VlessVariant = X25519 | Mlkem768

definition DEFAULT_VLESS_HANDSHAKE :: jsstring where
  "DEFAULT_VLESS_HANDSHAKE = str ''mlkem768x25519plus''"

definition DEFAULT_VLESS_ENCRYPTION :: jsstring where
  "DEFAULT_VLESS_ENCRYPTION = str ''native''"

definition DEFAULT_VLESS_PADDING :: jsstring where
  "DEFAULT_VLESS_PADDING = str ''100-111-1111.75-0-111.50-0-3333''"

definition DEFAULT_VLESS_SERVER_TICKET :: jsstring where
  "DEFAULT_VLESS_SERVER_TICKET = str ''600s''"

record select_option =
  o_value :: jsstring
  o_label :: jsstring
  o_translationKey :: jsstring

definition VLESS_RESUME_OPTIONS :: "select_option list" where
  "VLESS_RESUME_OPTIONS =
     [\<lparr>o_value = str ''0rtt'', o_label = str ''0rtt'',
        o_translationKey = str ''coreConfigModal.vlessResumeOption0rtt''\<rparr>,
      \<lparr>o_value = str ''1rtt'', o_label = str ''1rtt'',
        o_translationKey = str ''coreConfigModal.vlessResumeOption1rtt''\<rparr>]"

definition DEFAULT_VLESS_RESUME :: jsstring where
  "DEFAULT_VLESS_RESUME = o_value (VLESS_RESUME_OPTIONS ! 0)"

record VlessBuilderOptions =
  handshakeMethod :: jsstring
  encryptionMethod :: jsstring
  serverTicket :: jsstring
  clientTicket :: jsstring
  serverPadding :: jsstring
  clientPadding :: jsstring
  includeServerPadding :: bool
  includeClientPadding :: bool

definition createDefaultVlessOptions :: VlessBuilderOptions where
  "createDefaultVlessOptions =
     \<lparr>handshakeMethod = DEFAULT_VLESS_HANDSHAKE,
      encryptionMethod = DEFAULT_VLESS_ENCRYPTION,
      serverTicket = DEFAULT_VLESS_SERVER_TICKET,
      clientTicket = DEFAULT_VLESS_RESUME,
      serverPadding = DEFAULT_VLESS_PADDING,
      clientPadding = DEFAULT_VLESS_PADDING,
      includeServerPadding = False,
      includeClientPadding = False\<rparr>"

section \<open>The VLESS parameter encoder\<close>

text \<open>
  The helpers of \<^verbatim>\<open>generateVLESSEncryption\<close>. \<^verbatim>\<open>normalizeOption\<close> takes
  \<^verbatim>\<open>string | undefined\<close>: \<open>None\<close> is \<^verbatim>\<open>undefined\<close>, and \<^verbatim>\<open>!value\<close> also holds of the
  empty string.
\<close>

definition sanitizeSegments :: "jsstring \<Rightarrow> jsstring list" where
  "sanitizeSegments v = filter (\<lambda>segment. length segment > 0) (map trim (split DOT v))"

definition normalizeOption :: "jsstring option \<Rightarrow> jsstring \<Rightarrow> jsstring" where
  "normalizeOption v fallback =
     (case v of
        None \<Rightarrow> fallback
      | Some s \<Rightarrow>
          if s = [] then fallback
          else (let trimmed = trim s in if length trimmed > 0 then trimmed else fallback))"

record build_args =
  ticketValue :: jsstring
  paddingValue :: jsstring
  includePadding :: bool
  authParam :: jsstring
  fallbackTicket :: jsstring

text \<open>
  \<^verbatim>\<open>buildConfig\<close> closes over the two normalised method names; they are its first two
  arguments here.
\<close>

definition buildConfig :: "jsstring \<Rightarrow> jsstring \<Rightarrow> build_args \<Rightarrow> jsstring" where
  "buildConfig handshake encryption a =
     (let segments = [handshake, encryption,
                      normalizeOption (Some (ticketValue a)) (fallbackTicket a)];
          segments = (if includePadding a
                      then segments @ sanitizeSegments
                             (normalizeOption (Some (paddingValue a)) DEFAULT_VLESS_PADDING)
                      else segments);
          segments = segments @ [authParam a]
      in join [DOT] segments)"

section \<open>The text encoding layer\<close>

text \<open>
  Base64 after RFC 4648, as the platform's \<^verbatim>\<open>btoa\<close> and the library's
  \<^verbatim>\<open>encodeURLSafe\<close> compute it: three bytes give four digits of the alphabet, and a
  last group of one or two bytes is filled with \<open>=\<close>. The two encoders differ in the
  alphabet only. Byte values are numbers below 256 here.
\<close>

definition base64_standard :: jsstring where
  "base64_standard = str ''ABCDEFGHIJKLMNOPQRSTUVWXYZabcdefghijklmnopqrstuvwxyz0123456789+/''"

definition base64_urlsafe :: jsstring where
  "base64_urlsafe = str ''ABCDEFGHIJKLMNOPQRSTUVWXYZabcdefghijklmnopqrstuvwxyz0123456789-_''"

definition PAD :: code_unit where
  "PAD = of_char CHR ''=''"

fun base64_encode :: "jsstring \<Rightarrow> nat list \<Rightarrow> jsstring" where
  "base64_encode al (a # b # c # rest) =
     [al ! (a div 4), al ! ((a mod 4) * 16 + b div 16), al ! ((b mod 16) * 4 + c div 64),
      al ! (c mod 64)] @ base64_encode al rest"
| "base64_encode al [a, b] =
     [al ! (a div 4), al ! ((a mod 4) * 16 + b div 16), al ! ((b mod 16) * 4), PAD]"
| "base64_encode al [a] = [al ! (a div 4), al ! ((a mod 4) * 16), PAD, PAD]"
| "base64_encode al [] = []"

datatype js_error = Error jsstring | Thrown

text \<open>
  \<^verbatim>\<open>String.fromCharCode(...bytes)\<close> gives one code unit per byte; \<^verbatim>\<open>btoa\<close> throws on a
  code unit above 255.
\<close>

definition fromCharCode :: "bytes \<Rightarrow> jsstring" where
  "fromCharCode bs = map unat bs"

definition btoa :: "jsstring \<Rightarrow> js_error + jsstring" where
  "btoa s =
     (if \<forall>c \<in> set s. c \<le> 255 then Inr (base64_encode base64_standard s)
      else Inl (Error (str ''InvalidCharacterError'')))"

definition encodeURLSafe :: "bytes \<Rightarrow> jsstring" where
  "encodeURLSafe bs = base64_encode base64_urlsafe (map unat bs)"

text \<open>\<^verbatim>\<open>s.replace(/c/g, '')\<close> for a one-unit pattern.\<close>

definition remove_all :: "code_unit \<Rightarrow> jsstring \<Rightarrow> jsstring" where
  "remove_all c s = filter (\<lambda>x. x \<noteq> c) s"

definition NEWLINE :: code_unit where
  "NEWLINE = 10"

text \<open>\<^verbatim>\<open>byte.toString(16).padStart(2, '0')\<close>.\<close>

definition hex_digits :: jsstring where
  "hex_digits = str ''0123456789abcdef''"

definition toString16 :: "8 word \<Rightarrow> jsstring" where
  "toString16 byte =
     (let n = unat byte
      in if n < 16 then [hex_digits ! n] else [hex_digits ! (n div 16), hex_digits ! (n mod 16)])"

definition padStart :: "nat \<Rightarrow> code_unit \<Rightarrow> jsstring \<Rightarrow> jsstring" where
  "padStart n c s = replicate (n - length s) c @ s"

text \<open>
  The decoder of the standard alphabet, the inverse that the password requirement speaks
  of. The dialog has no decode path; this follows RFC 4648: groups of four digits, \<open>=\<close>
  only at the end of the last group.
\<close>

fun index_of :: "'a list \<Rightarrow> 'a \<Rightarrow> nat option" where
  "index_of [] x = None"
| "index_of (y # ys) x = (if x = y then Some 0 else map_option Suc (index_of ys x))"

fun base64_decode :: "jsstring \<Rightarrow> jsstring \<Rightarrow> nat list option" where
  "base64_decode al [] = Some []"
| "base64_decode al (w # x # y # z # rest) =
     (case (index_of al w, index_of al x) of
        (Some i, Some j) \<Rightarrow>
          if rest = [] \<and> y = PAD \<and> z = PAD then
            (if j mod 16 = 0 then Some [i * 4 + j div 16] else None)
          else (case index_of al y of
             Some k \<Rightarrow>
               if rest = [] \<and> z = PAD then
                 (if k mod 4 = 0 then Some [i * 4 + j div 16, (j mod 16) * 16 + k div 4]
                  else None)
               else (case (index_of al z, base64_decode al rest) of
                  (Some l, Some bs) \<Rightarrow>
                    Some ([i * 4 + j div 16, (j mod 16) * 16 + k div 4, (k mod 4) * 64 + l]
                          @ bs)
                | _ \<Rightarrow> None)
           | None \<Rightarrow> None)
      | _ \<Rightarrow> None)"
| "base64_decode al _ = None"

section \<open>Values of the configuration document\<close>

text \<open>
  What \<^verbatim>\<open>JSON.parse\<close> returns, and \<^verbatim>\<open>undefined\<close> for a property that is not there. An
  object keeps its members in document order; of two members with one name the later one
  is the property. A number is carried as a rational: the code looks at no more than
  whether it is zero.
\<close>

datatype jsval =
    JUndefined
  | JNull
  | JBool bool
  | JNumber rat
  | JString jsstring
  | JArray "jsval list"
  | JObject "(jsstring \<times> jsval) list"

text \<open>
  \<^verbatim>\<open>v.name\<close> for the two names read here, \<^verbatim>\<open>inbounds\<close> and \<^verbatim>\<open>tag\<close>, which no prototype
  defines: reading a property of \<^verbatim>\<open>null\<close> or \<^verbatim>\<open>undefined\<close> throws a TypeError, a
  primitive or an array has no such property, an object gives its own member.
\<close>

definition get_prop :: "jsval \<Rightarrow> jsstring \<Rightarrow> js_error + jsval" where
  "get_prop v name =
     (case v of
        JUndefined \<Rightarrow> Inl (Error (str ''TypeError''))
      | JNull \<Rightarrow> Inl (Error (str ''TypeError''))
      | JObject members \<Rightarrow>
          (case map_of (rev members) name of None \<Rightarrow> Inr JUndefined | Some x \<Rightarrow> Inr x)
      | _ \<Rightarrow> Inr JUndefined)"

definition truthy :: "jsval \<Rightarrow> bool" where
  "truthy v =
     (case v of
        JUndefined \<Rightarrow> False
      | JNull \<Rightarrow> False
      | JBool b \<Rightarrow> b
      | JNumber n \<Rightarrow> n \<noteq> 0
      | JString s \<Rightarrow> s \<noteq> []
      | _ \<Rightarrow> True)"

definition isArray :: "jsval \<Rightarrow> bool" where
  "isArray v = (case v of JArray _ \<Rightarrow> True | _ \<Rightarrow> False)"

text \<open>
  \<^verbatim>\<open>xs.filter(f)\<close> and \<^verbatim>\<open>xs.map(f)\<close> with a callback that may throw: the first exception
  ends the call.
\<close>

fun js_filter :: "('a \<Rightarrow> js_error + bool) \<Rightarrow> 'a list \<Rightarrow> js_error + 'a list" where
  "js_filter f [] = Inr []"
| "js_filter f (x # xs) =
     (case f x of
        Inl e \<Rightarrow> Inl e
      | Inr keep \<Rightarrow>
          (case js_filter f xs of
             Inl e \<Rightarrow> Inl e
           | Inr ys \<Rightarrow> Inr (if keep then x # ys else ys)))"

fun js_map :: "('a \<Rightarrow> js_error + 'b) \<Rightarrow> 'a list \<Rightarrow> js_error + 'b list" where
  "js_map f [] = Inr []"
| "js_map f (x # xs) =
     (case f x of
        Inl e \<Rightarrow> Inl e
      | Inr y \<Rightarrow> (case js_map f xs of Inl e \<Rightarrow> Inl e | Inr ys \<Rightarrow> Inr (y # ys)))"

section \<open>The state of the dialog\<close>

record KeyPair =
  publicKey :: jsstring
  privateKey :: jsstring

record ShadowsocksCredential =
  password :: jsstring
  ss_encryptionMethod :: jsstring

record Mldsa65 =
  seed :: jsstring
  verify :: jsstring

record variant_strings =
  decryption :: jsstring
  encryption :: jsstring

record VlessResult =
  x25519 :: variant_strings
  mlkem768 :: variant_strings
  options :: VlessBuilderOptions

text \<open>The payload of the result dialog (\<^verbatim>\<open>resultData: any\<close>), one shape per kind.\<close>

datatype result_data =
    KeyPairData KeyPair
  | ShortIdData jsstring
  | ShadowsocksData ShadowsocksCredential
  | Mldsa65Data Mldsa65
  | VlessData VlessResult

datatype CredentialKind =
  KeyPairKind | ShortIdKind | ShadowsocksPasswordKind | SignatureKeyPairKind | VlessEncryptionKind

text \<open>
  What leaves the component: a notification is a translation key (\<open>Translated\<close>) or a
  text taken from an exception (\<open>Text\<close>). \<open>Generation\<close> records that a generation function
  was entered; it stands for the call counter of the properties and is read by nothing in
  the component.
\<close>

datatype message = Translated jsstring | Text jsstring

datatype event = Generation CredentialKind | ToastSuccess message | ToastError message

record ValidationResult =
  isValid :: bool
  v_error :: "jsstring option"

record modal_state =
  validation :: ValidationResult
  isEditorReady :: bool
  isEditorFullscreen :: bool
  inboundTags :: "jsval list"
  isGeneratingKeyPair :: bool
  isGeneratingShortId :: bool
  isGeneratingVLESSEncryption :: bool
  selectedEncryptionMethod :: jsstring
  isGeneratingShadowsocksPassword :: bool
  isGeneratingMldsa65 :: bool
  selectedVlessVariant :: VlessVariant
  vlessOptions :: VlessBuilderOptions
  isVlessAdvancedModalOpen :: bool
  editorInstance :: "nat option"
  isResultsDialogOpen :: bool
  resultType :: "jsstring option"
  resultData :: "result_data option"
  generatedKeyPair :: "KeyPair option"
  generatedShortId :: "jsstring option"
  generatedShadowsocksPassword :: "ShadowsocksCredential option"
  generatedMldsa65 :: "Mldsa65 option"
  generatedVLESS :: "VlessResult option"
  events :: "event list"

text \<open>The initial values of the \<^verbatim>\<open>useState\<close> hooks.\<close>

definition initial_state :: modal_state where
  "initial_state =
     \<lparr>validation = \<lparr>isValid = True, v_error = None\<rparr>,
      isEditorReady = False,
      isEditorFullscreen = False,
      inboundTags = [],
      isGeneratingKeyPair = False,
      isGeneratingShortId = False,
      isGeneratingVLESSEncryption = False,
      selectedEncryptionMethod = m_value (SHADOWSOCKS_ENCRYPTION_METHODS ! 0),
      isGeneratingShadowsocksPassword = False,
      isGeneratingMldsa65 = False,
      selectedVlessVariant = X25519,
      vlessOptions = createDefaultVlessOptions,
      isVlessAdvancedModalOpen = False,
      editorInstance = None,
      isResultsDialogOpen = False,
      resultType = None,
      resultData = None,
      generatedKeyPair = None,
      generatedShortId = None,
      generatedShadowsocksPassword = None,
      generatedMldsa65 = None,
      generatedVLESS = None,
      events = []\<rparr>"

definition showResultDialog :: "jsstring \<Rightarrow> result_data \<Rightarrow> modal_state \<Rightarrow> modal_state" where
  "showResultDialog type data s =
     s\<lparr>resultType := Some type, resultData := Some data, isResultsDialogOpen := True\<rparr>"

definition emit :: "event \<Rightarrow> modal_state \<Rightarrow> modal_state" where
  "emit e s = s\<lparr>events := events s @ [e]\<rparr>"

section \<open>Inbound tags of the configuration document\<close>

text \<open>
  The body of \<^verbatim>\<open>debouncedConfigChange\<close>. \<^verbatim>\<open>JSON.parse\<close> is the platform's; it is the
  first argument, and \<open>Inl\<close> is its SyntaxError. Every exception of the \<^verbatim>\<open>try\<close> block
  ends in the \<^verbatim>\<open>catch\<close>, which sets the empty list.
\<close>

definition inbound_has_tag :: "jsval \<Rightarrow> js_error + bool" where
  "inbound_has_tag inbound =
     (case get_prop inbound (str ''tag'') of
        Inl e \<Rightarrow> Inl e
      | Inr tag \<Rightarrow> Inr (case tag of JString t \<Rightarrow> trim t \<noteq> [] | _ \<Rightarrow> False))"

definition debouncedConfigChange ::
  "(jsstring \<Rightarrow> js_error + jsval) \<Rightarrow> jsstring \<Rightarrow> modal_state \<Rightarrow> modal_state" where
  "debouncedConfigChange JSON_parse v s =
     (case JSON_parse v of
        Inl e \<Rightarrow> s\<lparr>inboundTags := []\<rparr>
      | Inr parsedConfig \<Rightarrow>
          (case get_prop parsedConfig (str ''inbounds'') of
             Inl e \<Rightarrow> s\<lparr>inboundTags := []\<rparr>
           | Inr inbounds \<Rightarrow>
               if truthy inbounds \<and> isArray inbounds then
                 (case inbounds of
                    JArray elements \<Rightarrow>
                      (case js_filter inbound_has_tag elements of
                         Inl e \<Rightarrow> s\<lparr>inboundTags := []\<rparr>
                       | Inr kept \<Rightarrow>
                           (case js_map (\<lambda>inbound. get_prop inbound (str ''tag'')) kept of
                              Inl e \<Rightarrow> s\<lparr>inboundTags := []\<rparr>
                            | Inr tags \<Rightarrow> s\<lparr>inboundTags := tags\<rparr>))
                  | _ \<Rightarrow> s\<lparr>inboundTags := []\<rparr>)
               else s\<lparr>inboundTags := []\<rparr>))"

section \<open>The generators\<close>

text \<open>
  What the libraries and the platform do during one call of a handler: each call either
  throws (\<open>Inl\<close>) or returns. \<^verbatim>\<open>generateKeyPair\<close> is the X25519 library's,
  \<^verbatim>\<open>crypto.getRandomValues\<close> fills the array it is given from \<open>random_source\<close>,
  \<^verbatim>\<open>deriveKeyPair\<close> is the ML-KEM library's (public key first), and \<^verbatim>\<open>generateMldsa65\<close> is
  the helper of \<^verbatim>\<open>@/utils/mldsa65\<close>.
\<close>

record x25519_pair =
  kp_publicKey :: bytes
  kp_secretKey :: bytes

record platform =
  generateKeyPair :: "js_error + x25519_pair"
  random_source :: "js_error + (nat \<Rightarrow> 8 word)"
  deriveKeyPair :: "bytes \<Rightarrow> js_error + bytes \<times> bytes"
  generateMldsa65 :: "js_error + Mldsa65"

definition Uint8Array :: "nat \<Rightarrow> bytes" where
  "Uint8Array n = replicate n 0"

definition crypto_getRandomValues :: "platform \<Rightarrow> bytes \<Rightarrow> js_error + bytes" where
  "crypto_getRandomValues p arr =
     (case random_source p of
        Inl e \<Rightarrow> Inl e
      | Inr f \<Rightarrow> Inr (map f [0..<length arr]))"

definition generatePrivateAndPublicKey :: "platform \<Rightarrow> modal_state \<Rightarrow> modal_state" where
  "generatePrivateAndPublicKey p s0 =
     (let s = emit (Generation KeyPairKind) s0;
          s = s\<lparr>isGeneratingKeyPair := True\<rparr>;
          s = (case generateKeyPair p of
                 Inl e \<Rightarrow>
                   emit (ToastError (Translated (str ''coreConfigModal.keyPairGenerationFailed''))) s
               | Inr keyPair \<Rightarrow>
                   (let formattedKeyPair =
                          \<lparr>publicKey = remove_all NEWLINE
                                         (remove_all PAD (encodeURLSafe (kp_publicKey keyPair))),
                           privateKey = remove_all NEWLINE
                                          (remove_all PAD (encodeURLSafe (kp_secretKey keyPair)))\<rparr>;
                        s = s\<lparr>generatedKeyPair := Some formattedKeyPair\<rparr>;
                        s = showResultDialog (str ''keyPair'') (KeyPairData formattedKeyPair) s
                    in emit (ToastSuccess (Translated (str ''coreConfigModal.keyPairGenerated''))) s))
      in s\<lparr>isGeneratingKeyPair := False\<rparr>)"

definition generateShortId :: "platform \<Rightarrow> modal_state \<Rightarrow> modal_state" where
  "generateShortId p s0 =
     (let s = emit (Generation ShortIdKind) s0;
          s = s\<lparr>isGeneratingShortId := True\<rparr>;
          s = (case crypto_getRandomValues p (Uint8Array 8) of
                 Inl e \<Rightarrow>
                   emit (ToastError (Translated (str ''coreConfigModal.shortIdGenerationFailed''))) s
               | Inr randomBytes \<Rightarrow>
                   (let shortId = join [] (map (\<lambda>byte. padStart 2 (of_char CHR ''0'')
                                                          (toString16 byte)) randomBytes);
                        s = s\<lparr>generatedShortId := Some shortId\<rparr>;
                        s = showResultDialog (str ''shortId'') (ShortIdData shortId) s
                    in emit (ToastSuccess (Translated (str ''coreConfigModal.shortIdGenerated''))) s))
      in s\<lparr>isGeneratingShortId := False\<rparr>)"

text \<open>
  An unknown method identifier leaves the \<^verbatim>\<open>try\<close> block by \<^verbatim>\<open>return\<close>; the \<^verbatim>\<open>finally\<close>
  block still runs.
\<close>

definition generateShadowsocksPassword ::
  "platform \<Rightarrow> jsstring \<Rightarrow> modal_state \<Rightarrow> modal_state" where
  "generateShadowsocksPassword p v s0 =
     (let s = emit (Generation ShadowsocksPasswordKind) s0;
          s = s\<lparr>isGeneratingShadowsocksPassword := True\<rparr>;
          failed = emit (ToastError
                     (Translated (str ''coreConfigModal.shadowsocksPasswordGenerationFailed'')));
          s = (case find (\<lambda>m. m_value m = v) SHADOWSOCKS_ENCRYPTION_METHODS of
                 None \<Rightarrow> s
               | Some method \<Rightarrow>
                   (case crypto_getRandomValues p (Uint8Array (m_length method)) of
                      Inl e \<Rightarrow> failed s
                    | Inr randomBytes \<Rightarrow>
                        (case btoa (fromCharCode randomBytes) of
                           Inl e \<Rightarrow> failed s
                         | Inr pw \<Rightarrow>
                             (let credential =
                                    \<lparr>password = pw, ss_encryptionMethod = m_label method\<rparr>;
                                  s = s\<lparr>generatedShadowsocksPassword := Some credential\<rparr>;
                                  s = showResultDialog (str ''shadowsocksPassword'')
                                        (ShadowsocksData credential) s
                              in emit (ToastSuccess (Translated
                                   (str ''coreConfigModal.shadowsocksPasswordGenerated''))) s))))
      in s\<lparr>isGeneratingShadowsocksPassword := False\<rparr>)"

definition handleGenerateMldsa65 :: "platform \<Rightarrow> modal_state \<Rightarrow> modal_state" where
  "handleGenerateMldsa65 p s0 =
     (let s = emit (Generation SignatureKeyPairKind) s0;
          s = s\<lparr>isGeneratingMldsa65 := True\<rparr>;
          s = (case generateMldsa65 p of
                 Inl error \<Rightarrow>
                   (let msg = (case error of
                                 Error m \<Rightarrow> Text m
                               | Thrown \<Rightarrow>
                                   Translated (str ''coreConfigModal.mldsa65GenerationFailed''))
                    in emit (ToastError msg) s)
               | Inr result \<Rightarrow>
                   (let s = s\<lparr>generatedMldsa65 := Some result\<rparr>;
                        s = showResultDialog (str ''mldsa65'') (Mldsa65Data result) s
                    in emit (ToastSuccess (Translated (str ''coreConfigModal.mldsa65Generated''))) s))
      in s\<lparr>isGeneratingMldsa65 := False\<rparr>)"

text \<open>
  The part of \<^verbatim>\<open>generateVLESSEncryption\<close> after the keys are drawn: the four calls of
  \<^verbatim>\<open>buildConfig\<close> and the result object.
\<close>

definition vlessResultData ::
  "VlessBuilderOptions \<Rightarrow> jsstring \<Rightarrow> jsstring \<Rightarrow> jsstring \<Rightarrow> jsstring \<Rightarrow> VlessResult" where
  "vlessResultData opts x25519ServerKey x25519ClientKey mlkem768ServerKey mlkem768ClientKey =
     (let handshake = normalizeOption (Some (handshakeMethod opts)) DEFAULT_VLESS_HANDSHAKE;
          encryptionM = normalizeOption (Some (encryptionMethod opts)) DEFAULT_VLESS_ENCRYPTION;
          x25519Decryption = buildConfig handshake encryptionM
            \<lparr>ticketValue = serverTicket opts, paddingValue = serverPadding opts,
             includePadding = includeServerPadding opts, authParam = x25519ServerKey,
             fallbackTicket = DEFAULT_VLESS_SERVER_TICKET\<rparr>;
          x25519Encryption = buildConfig handshake encryptionM
            \<lparr>ticketValue = clientTicket opts, paddingValue = clientPadding opts,
             includePadding = includeClientPadding opts, authParam = x25519ClientKey,
             fallbackTicket = DEFAULT_VLESS_RESUME\<rparr>;
          mlkem768Decryption = buildConfig handshake encryptionM
            \<lparr>ticketValue = serverTicket opts, paddingValue = serverPadding opts,
             includePadding = includeServerPadding opts, authParam = mlkem768ServerKey,
             fallbackTicket = DEFAULT_VLESS_SERVER_TICKET\<rparr>;
          mlkem768Encryption = buildConfig handshake encryptionM
            \<lparr>ticketValue = clientTicket opts, paddingValue = clientPadding opts,
             includePadding = includeClientPadding opts, authParam = mlkem768ClientKey,
             fallbackTicket = DEFAULT_VLESS_RESUME\<rparr>
      in \<lparr>x25519 = \<lparr>decryption = x25519Decryption, encryption = x25519Encryption\<rparr>,
          mlkem768 = \<lparr>decryption = mlkem768Decryption, encryption = mlkem768Encryption\<rparr>,
          options = opts\<rparr>)"

definition generateVLESSEncryption :: "platform \<Rightarrow> modal_state \<Rightarrow> modal_state" where
  "generateVLESSEncryption p s0 =
     (let s = emit (Generation VlessEncryptionKind) s0;
          s = s\<lparr>isGeneratingVLESSEncryption := True\<rparr>;
          failed = emit (ToastError
                     (Translated (str ''coreConfigModal.vlessEncryptionGenerationFailed'')));
          s = (case generateKeyPair p of
                 Inl e \<Rightarrow> failed s
               | Inr x25519KeyPair \<Rightarrow>
                   (let x25519ServerKey =
                          remove_all PAD (encodeURLSafe (kp_secretKey x25519KeyPair));
                        x25519ClientKey =
                          remove_all PAD (encodeURLSafe (kp_publicKey x25519KeyPair))
                    in case crypto_getRandomValues p (Uint8Array 64) of
                         Inl e \<Rightarrow> failed s
                       | Inr mlkem768Seed \<Rightarrow>
                           (case deriveKeyPair p mlkem768Seed of
                              Inl e \<Rightarrow> failed s
                            | Inr (mlkem768Client, mlkem768Secret) \<Rightarrow>
                                (let mlkem768ServerKey =
                                       remove_all PAD (encodeURLSafe mlkem768Seed);
                                     mlkem768ClientKey =
                                       remove_all PAD (encodeURLSafe mlkem768Client);
                                     data = vlessResultData (vlessOptions s) x25519ServerKey
                                              x25519ClientKey mlkem768ServerKey mlkem768ClientKey;
                                     s = s\<lparr>generatedVLESS := Some data\<rparr>;
                                     s = showResultDialog (str ''vlessEncryption'')
                                           (VlessData data) s
                                 in emit (ToastSuccess (Translated
                                      (str ''coreConfigModal.vlessEncryptionGenerated''))) s))))
      in s\<lparr>isGeneratingVLESSEncryption := False\<rparr>)"

section \<open>Closing the dialog, viewing and regenerating\<close>

text \<open>
  The effect that runs when \<^verbatim>\<open>isDialogOpen\<close> changes. Its last line in the source is the
  comment \<^verbatim>\<open>Don't clear generated values - keep them for reuse\<close>: no \<^verbatim>\<open>setGenerated...\<close>
  is called.
\<close>

definition cleanupOnModalClose :: "bool \<Rightarrow> modal_state \<Rightarrow> modal_state" where
  "cleanupOnModalClose isDialogOpen s =
     (if \<not> isDialogOpen then
        s\<lparr>isEditorFullscreen := False,
          isResultsDialogOpen := False,
          resultType := None,
          resultData := None,
          selectedVlessVariant := X25519,
          vlessOptions := createDefaultVlessOptions,
          validation := \<lparr>isValid = True, v_error = None\<rparr>,
          editorInstance := None,
          isEditorReady := False\<rparr>
      else s)"

text \<open>
  The view handlers test the stored value for truthiness: an object is truthy, a string
  is truthy when it is not empty.
\<close>

definition viewKeyPair :: "platform \<Rightarrow> modal_state \<Rightarrow> modal_state" where
  "viewKeyPair p s =
     (case generatedKeyPair s of
        Some kp \<Rightarrow> showResultDialog (str ''keyPair'') (KeyPairData kp) s
      | None \<Rightarrow> generatePrivateAndPublicKey p s)"

definition viewShortId :: "platform \<Rightarrow> modal_state \<Rightarrow> modal_state" where
  "viewShortId p s =
     (case generatedShortId s of
        Some shortId \<Rightarrow>
          if shortId \<noteq> [] then showResultDialog (str ''shortId'') (ShortIdData shortId) s
          else generateShortId p s
      | None \<Rightarrow> generateShortId p s)"

definition viewShadowsocksPassword :: "platform \<Rightarrow> modal_state \<Rightarrow> modal_state" where
  "viewShadowsocksPassword p s =
     (case generatedShadowsocksPassword s of
        Some c \<Rightarrow> showResultDialog (str ''shadowsocksPassword'') (ShadowsocksData c) s
      | None \<Rightarrow> generateShadowsocksPassword p (selectedEncryptionMethod s) s)"

definition viewMldsa65 :: "platform \<Rightarrow> modal_state \<Rightarrow> modal_state" where
  "viewMldsa65 p s =
     (case generatedMldsa65 s of
        Some m \<Rightarrow> showResultDialog (str ''mldsa65'') (Mldsa65Data m) s
      | None \<Rightarrow> handleGenerateMldsa65 p s)"

definition viewVLESS :: "modal_state \<Rightarrow> modal_state" where
  "viewVLESS s =
     (case generatedVLESS s of
        Some v \<Rightarrow> showResultDialog (str ''vlessEncryption'') (VlessData v) s
      | None \<Rightarrow> s\<lparr>isVlessAdvancedModalOpen := True\<rparr>)"

text \<open>
  The click handler of the result dialog's regenerate button: a \<^verbatim>\<open>switch\<close> on
  \<^verbatim>\<open>resultType\<close> with no default case.
\<close>

definition regenerate :: "platform \<Rightarrow> modal_state \<Rightarrow> modal_state" where
  "regenerate p s =
     (if resultType s = Some (str ''keyPair'') then generatePrivateAndPublicKey p s
      else if resultType s = Some (str ''shortId'') then generateShortId p s
      else if resultType s = Some (str ''shadowsocksPassword'')
        then generateShadowsocksPassword p (selectedEncryptionMethod s) s
      else if resultType s = Some (str ''mldsa65'') then handleGenerateMldsa65 p s
      else if resultType s = Some (str ''vlessEncryption'')
        then s\<lparr>isVlessAdvancedModalOpen := True, isResultsDialogOpen := False\<rparr>
      else s)"

section \<open>Vocabulary of the properties\<close>

text \<open>
  The definitions of this section are not functions of the dialog; they name what the
  properties speak of.
\<close>

text \<open>
  The segments of a role's string that come from the options: the two method names, the
  ticket and the padding pieces, everything but the final token.
\<close>

definition server_segments :: "VlessBuilderOptions \<Rightarrow> jsstring list" where
  "server_segments opts =
     [normalizeOption (Some (handshakeMethod opts)) DEFAULT_VLESS_HANDSHAKE,
      normalizeOption (Some (encryptionMethod opts)) DEFAULT_VLESS_ENCRYPTION,
      normalizeOption (Some (serverTicket opts)) DEFAULT_VLESS_SERVER_TICKET]
     @ (if includeServerPadding opts
        then sanitizeSegments (normalizeOption (Some (serverPadding opts)) DEFAULT_VLESS_PADDING)
        else [])"

definition client_segments :: "VlessBuilderOptions \<Rightarrow> jsstring list" where
  "client_segments opts =
     [normalizeOption (Some (handshakeMethod opts)) DEFAULT_VLESS_HANDSHAKE,
      normalizeOption (Some (encryptionMethod opts)) DEFAULT_VLESS_ENCRYPTION,
      normalizeOption (Some (clientTicket opts)) DEFAULT_VLESS_RESUME]
     @ (if includeClientPadding opts
        then sanitizeSegments (normalizeOption (Some (clientPadding opts)) DEFAULT_VLESS_PADDING)
        else [])"

text \<open>
  The padding pieces as the specification words them: the padding string, or the default
  when \<open>unset\<close> holds of it, split on the dot, each piece trimmed, the empty pieces
  dropped. The specification's condition is "empty"; the dialog's is "empty after
  trimming".
\<close>

definition padding_pieces :: "(jsstring \<Rightarrow> bool) \<Rightarrow> jsstring \<Rightarrow> jsstring list" where
  "padding_pieces unset padding =
     filter (\<lambda>piece. piece \<noteq> [])
       (map trim (split DOT (if unset padding then DEFAULT_VLESS_PADDING else padding)))"

definition is_empty :: "jsstring \<Rightarrow> bool" where
  "is_empty v \<longleftrightarrow> v = []"

definition is_blank :: "jsstring \<Rightarrow> bool" where
  "is_blank v \<longleftrightarrow> (\<forall>c \<in> set v. isWhiteSpace c)"

text \<open>
  The tags of a parsed document as the specification words them: the \<^verbatim>\<open>tag\<close> of every
  element of the \<^verbatim>\<open>inbounds\<close> array whose tag is a string that \<open>keep\<close> accepts, in document
  order, and the empty list when the text does not parse or has no such array.
\<close>

definition document_inbounds :: "jsval \<Rightarrow> jsval list option" where
  "document_inbounds doc =
     (case doc of
        JObject members \<Rightarrow>
          (case map_of (rev members) (str ''inbounds'') of
             Some (JArray elements) \<Rightarrow> Some elements
           | _ \<Rightarrow> None)
      | _ \<Rightarrow> None)"

definition element_tag :: "jsval \<Rightarrow> jsstring option" where
  "element_tag e =
     (case e of
        JObject members \<Rightarrow>
          (case map_of (rev members) (str ''tag'') of Some (JString t) \<Rightarrow> Some t | _ \<Rightarrow> None)
      | _ \<Rightarrow> None)"

definition nonempty_tag :: "jsstring \<Rightarrow> bool" where
  "nonempty_tag t \<longleftrightarrow> t \<noteq> []"

definition nonblank_tag :: "jsstring \<Rightarrow> bool" where
  "nonblank_tag t \<longleftrightarrow> trim t \<noteq> []"

definition tags_where :: "(jsstring \<Rightarrow> bool) \<Rightarrow> js_error + jsval \<Rightarrow> jsval list" where
  "tags_where keep parsed =
     (case parsed of
        Inl e \<Rightarrow> []
      | Inr doc \<Rightarrow>
          (case document_inbounds doc of
             None \<Rightarrow> []
           | Some elements \<Rightarrow> map JString (filter keep (List.map_filter element_tag elements))))"

definition no_null_inbound :: "js_error + jsval \<Rightarrow> bool" where
  "no_null_inbound parsed =
     (case parsed of
        Inl e \<Rightarrow> True
      | Inr doc \<Rightarrow>
          (case document_inbounds doc of
             None \<Rightarrow> True
           | Some elements \<Rightarrow> JNull \<notin> set elements \<and> JUndefined \<notin> set elements))"

text \<open>
  Per credential kind: the name under which its result is shown, its entry of the
  session cache, whether the view handlers find the entry (they test it for truthiness),
  its in-progress flag, its generation function as the view and regenerate handlers call
  it, its view handler, and the number of times its generation function was entered.
\<close>

definition type_name :: "CredentialKind \<Rightarrow> jsstring" where
  "type_name k =
     (case k of
        KeyPairKind \<Rightarrow> str ''keyPair''
      | ShortIdKind \<Rightarrow> str ''shortId''
      | ShadowsocksPasswordKind \<Rightarrow> str ''shadowsocksPassword''
      | SignatureKeyPairKind \<Rightarrow> str ''mldsa65''
      | VlessEncryptionKind \<Rightarrow> str ''vlessEncryption'')"

definition cache :: "CredentialKind \<Rightarrow> modal_state \<Rightarrow> result_data option" where
  "cache k s =
     (case k of
        KeyPairKind \<Rightarrow> map_option KeyPairData (generatedKeyPair s)
      | ShortIdKind \<Rightarrow> map_option ShortIdData (generatedShortId s)
      | ShadowsocksPasswordKind \<Rightarrow> map_option ShadowsocksData (generatedShadowsocksPassword s)
      | SignatureKeyPairKind \<Rightarrow> map_option Mldsa65Data (generatedMldsa65 s)
      | VlessEncryptionKind \<Rightarrow> map_option VlessData (generatedVLESS s))"

definition cached :: "CredentialKind \<Rightarrow> modal_state \<Rightarrow> bool" where
  "cached k s =
     (case cache k s of
        None \<Rightarrow> False
      | Some (ShortIdData shortId) \<Rightarrow> shortId \<noteq> []
      | Some _ \<Rightarrow> True)"

definition in_progress :: "CredentialKind \<Rightarrow> modal_state \<Rightarrow> bool" where
  "in_progress k s =
     (case k of
        KeyPairKind \<Rightarrow> isGeneratingKeyPair s
      | ShortIdKind \<Rightarrow> isGeneratingShortId s
      | ShadowsocksPasswordKind \<Rightarrow> isGeneratingShadowsocksPassword s
      | SignatureKeyPairKind \<Rightarrow> isGeneratingMldsa65 s
      | VlessEncryptionKind \<Rightarrow> isGeneratingVLESSEncryption s)"

definition generate :: "CredentialKind \<Rightarrow> platform \<Rightarrow> modal_state \<Rightarrow> modal_state" where
  "generate k p s =
     (case k of
        KeyPairKind \<Rightarrow> generatePrivateAndPublicKey p s
      | ShortIdKind \<Rightarrow> generateShortId p s
      | ShadowsocksPasswordKind \<Rightarrow> generateShadowsocksPassword p (selectedEncryptionMethod s) s
      | SignatureKeyPairKind \<Rightarrow> handleGenerateMldsa65 p s
      | VlessEncryptionKind \<Rightarrow> generateVLESSEncryption p s)"

definition view :: "CredentialKind \<Rightarrow> platform \<Rightarrow> modal_state \<Rightarrow> modal_state" where
  "view k p s =
     (case k of
        KeyPairKind \<Rightarrow> viewKeyPair p s
      | ShortIdKind \<Rightarrow> viewShortId p s
      | ShadowsocksPasswordKind \<Rightarrow> viewShadowsocksPassword p s
      | SignatureKeyPairKind \<Rightarrow> viewMldsa65 p s
      | VlessEncryptionKind \<Rightarrow> viewVLESS s)"

definition generation_calls :: "CredentialKind \<Rightarrow> modal_state \<Rightarrow> nat" where
  "generation_calls k s = count_list (events s) (Generation k)"

text \<open>
  The outcome of a generation call, read off the platform: \<open>throws\<close> when a call inside
  the \<^verbatim>\<open>try\<close> block throws, \<open>completes\<close> when the block runs to its end. A Shadowsocks
  call with an unknown method identifier does neither: it returns early.
\<close>

definition known_method :: "jsstring \<Rightarrow> bool" where
  "known_method v \<longleftrightarrow> v \<in> set (map m_value SHADOWSOCKS_ENCRYPTION_METHODS)"

definition mlkem_throws :: "platform \<Rightarrow> bool" where
  "mlkem_throws p =
     (case random_source p of
        Inl e \<Rightarrow> True
      | Inr f \<Rightarrow> isl (deriveKeyPair p (map f [0..<64])))"

definition throws :: "CredentialKind \<Rightarrow> platform \<Rightarrow> modal_state \<Rightarrow> bool" where
  "throws k p s =
     (case k of
        KeyPairKind \<Rightarrow> isl (generateKeyPair p)
      | ShortIdKind \<Rightarrow> isl (random_source p)
      | ShadowsocksPasswordKind \<Rightarrow>
          known_method (selectedEncryptionMethod s) \<and> isl (random_source p)
      | SignatureKeyPairKind \<Rightarrow> isl (generateMldsa65 p)
      | VlessEncryptionKind \<Rightarrow> isl (generateKeyPair p) \<or> mlkem_throws p)"

definition completes :: "CredentialKind \<Rightarrow> platform \<Rightarrow> modal_state \<Rightarrow> bool" where
  "completes k p s =
     (case k of
        KeyPairKind \<Rightarrow> \<not> isl (generateKeyPair p)
      | ShortIdKind \<Rightarrow> \<not> isl (random_source p)
      | ShadowsocksPasswordKind \<Rightarrow>
          known_method (selectedEncryptionMethod s) \<and> \<not> isl (random_source p)
      | SignatureKeyPairKind \<Rightarrow> \<not> isl (generateMldsa65 p)
      | VlessEncryptionKind \<Rightarrow> \<not> isl (generateKeyPair p) \<and> \<not> mlkem_throws p)"

text \<open>
  For the examples: a platform on which every call returns, with keys of the schemes'
  sizes and the random bytes 0, 1, 2, ..., and a platform on which every call throws.
\<close>

definition counting_bytes :: "nat \<Rightarrow> 8 word" where
  "counting_bytes i = of_nat i"

definition example_platform :: platform where
  "example_platform =
     \<lparr>generateKeyPair = Inr \<lparr>kp_publicKey = replicate 32 1, kp_secretKey = replicate 32 2\<rparr>,
      random_source = Inr counting_bytes,
      deriveKeyPair = (\<lambda>sd. Inr (replicate 1184 3, replicate 2400 4)),
      generateMldsa65 = Inr \<lparr>seed = str ''c2VlZA'', verify = str ''dmVyaWZ5''\<rparr>\<rparr>"

definition failing_platform :: platform where
  "failing_platform =
     \<lparr>generateKeyPair = Inl Thrown,
      random_source = Inl Thrown,
      deriveKeyPair = (\<lambda>sd. Inl Thrown),
      generateMldsa65 = Inl (Error (str ''no entropy''))\<rparr>"

text \<open>
  The credential that the outputs of the platform determine for a kind, when every call
  returns: the key pair and the derived keys in URL-safe base64 without padding, the eight
  random bytes in lowercase hex, the random bytes of the selected method in standard
  base64, the signature key material as the helper returns it, and the four VLESS strings
  for the given options. It is a function of the platform, the selected method and the
  options; no cache entry is among its arguments.
\<close>

definition fresh_value ::
  "CredentialKind \<Rightarrow> platform \<Rightarrow> jsstring \<Rightarrow> VlessBuilderOptions \<Rightarrow> result_data option" where
  "fresh_value k p selected opts =
     (case k of
        KeyPairKind \<Rightarrow>
          (case generateKeyPair p of
             Inl e \<Rightarrow> None
           | Inr kp \<Rightarrow> Some (KeyPairData
               \<lparr>publicKey = remove_all NEWLINE (remove_all PAD (encodeURLSafe (kp_publicKey kp))),
                privateKey = remove_all NEWLINE
                               (remove_all PAD (encodeURLSafe (kp_secretKey kp)))\<rparr>))
      | ShortIdKind \<Rightarrow>
          (case random_source p of
             Inl e \<Rightarrow> None
           | Inr f \<Rightarrow> Some (ShortIdData
               (concat (map (\<lambda>i. padStart 2 (of_char CHR ''0'') (toString16 (f i))) [0..<8]))))
      | ShadowsocksPasswordKind \<Rightarrow>
          (case find (\<lambda>m. m_value m = selected) SHADOWSOCKS_ENCRYPTION_METHODS of
             None \<Rightarrow> None
           | Some cipher \<Rightarrow>
               (case random_source p of
                  Inl e \<Rightarrow> None
                | Inr f \<Rightarrow> Some (ShadowsocksData
                    \<lparr>password = base64_encode base64_standard
                                  (map (\<lambda>i. unat (f i)) [0..<m_length cipher]),
                     ss_encryptionMethod = m_label cipher\<rparr>)))
      | SignatureKeyPairKind \<Rightarrow>
          (case generateMldsa65 p of Inl e \<Rightarrow> None | Inr r \<Rightarrow> Some (Mldsa65Data r))
      | VlessEncryptionKind \<Rightarrow>
          (case generateKeyPair p of
             Inl e \<Rightarrow> None
           | Inr kp \<Rightarrow>
               (case random_source p of
                  Inl e \<Rightarrow> None
                | Inr f \<Rightarrow>
                    (case deriveKeyPair p (map f [0..<64]) of
                       Inl e \<Rightarrow> None
                     | Inr (pk, sk) \<Rightarrow> Some (VlessData
                         (vlessResultData opts
                            (remove_all PAD (encodeURLSafe (kp_secretKey kp)))
                            (remove_all PAD (encodeURLSafe (kp_publicKey kp)))
                            (remove_all PAD (encodeURLSafe (map f [0..<64])))
                            (remove_all PAD (encodeURLSafe pk))))))))"

text \<open>A second working platform, whose random bytes are all 255.\<close>

definition constant_bytes :: "nat \<Rightarrow> 8 word" where
  "constant_bytes i = 255"

definition second_platform :: platform where
  "second_platform = example_platform\<lparr>random_source := Inr constant_bytes\<rparr>"

text \<open>
  Documents for the examples, and a stand-in for \<^verbatim>\<open>JSON.parse\<close> that knows three texts
  and rejects every other text.
\<close>

definition example_document :: jsval where
  "example_document =
     JObject [(str ''inbounds'',
       JArray [JObject [(str ''tag'', JString (str ''A''))],
               JObject [(str ''tag'', JString (str ''''))],
               JObject [(str ''notag'', JNumber 1)]])]"

definition blank_tag_document :: jsval where
  "blank_tag_document =
     JObject [(str ''inbounds'', JArray [JObject [(str ''tag'', JString (str '' ''))]])]"

definition example_parse :: "jsstring \<Rightarrow> js_error + jsval" where
  \<open>example_parse text =
     (if text = str ''{"inbounds":[{"tag":"A"},{"tag":""},{"notag":1}]}''
        then Inr example_document
      else if text = str ''{"inbounds":[{"tag":" "}]}'' then Inr blank_tag_document
      else if text = str ''{"log":{}}'' then Inr (JObject [(str ''log'', JObject [])])
      else Inl (Error (str ''SyntaxError'')))\<close>

section \<open>Properties of the string operations\<close>

lemma split_from_acc:
  "split_from d acc s = (rev acc @ hd (split_from d [] s)) # tl (split_from d [] s)"
proof (induction s arbitrary: acc)
  case Nil
  show ?case by simp
next
  case (Cons c cs)
  show ?case
  proof (cases "c = d")
    case True
    then show ?thesis by simp
  next
    case False
    have "split_from d (c # acc) cs = (rev (c # acc) @ hd (split_from d [] cs)) # tl (split_from d [] cs)"
      by (rule Cons.IH)
    moreover have "split_from d [c] cs = (rev [c] @ hd (split_from d [] cs)) # tl (split_from d [] cs)"
      by (rule Cons.IH)
    ultimately show ?thesis using False by simp
  qed
qed

lemma split_Nil: "split d [] = [[]]"
  by (simp add: split_def)

lemma split_Cons:
  "split d (c # cs) =
     (if c = d then [] # split d cs else (c # hd (split d cs)) # tl (split d cs))"
  using split_from_acc [of d "[c]" cs] by (simp add: split_def)

lemma split_not_Nil: "split d s \<noteq> []"
  by (cases s) (simp_all add: split_Nil split_Cons)

lemma split_snoc:
  "w \<noteq> d \<Longrightarrow> split d (s @ [w]) = butlast (split d s) @ [last (split d s) @ [w]]"
proof (induction s)
  case Nil
  then show ?case by (simp add: split_Nil split_Cons)
next
  case (Cons c cs)
  obtain p ps where sp: "split d cs = p # ps"
    using split_not_Nil [of d cs] by (cases "split d cs") auto
  show ?case using Cons sp by (auto simp add: split_Cons split_not_Nil)
qed

lemma trim_Cons_ws: "isWhiteSpace w \<Longrightarrow> trim (w # p) = trim p"
  by (simp add: trim_def)

lemma trim_snoc_ws: "isWhiteSpace w \<Longrightarrow> trim (p @ [w]) = trim p"
proof (induction p)
  case Nil
  then show ?case by (simp add: trim_def)
next
  case (Cons a p)
  then show ?case by (simp add: trim_def)
qed

lemma trim_eq_Nil_iff: "trim s = [] \<longleftrightarrow> (\<forall>c \<in> set s. isWhiteSpace c)"
proof
  assume "trim s = []"
  then have "\<forall>c \<in> set (dropWhile isWhiteSpace s). isWhiteSpace c"
    by (simp add: trim_def dropWhile_eq_Nil_conv)
  then have "dropWhile isWhiteSpace s = []"
    using hd_dropWhile [of isWhiteSpace s] by (cases "dropWhile isWhiteSpace s") force+
  then show "\<forall>c \<in> set s. isWhiteSpace c"
    by (simp add: dropWhile_eq_Nil_conv)
next
  assume "\<forall>c \<in> set s. isWhiteSpace c"
  then have d: "dropWhile isWhiteSpace s = []" by simp
  show "trim s = []" unfolding trim_def d by simp
qed

lemma DOT_not_ws: "\<not> isWhiteSpace DOT"
  by (simp add: isWhiteSpace_def DOT_def)

lemma sanitize_Cons_ws: "isWhiteSpace w \<Longrightarrow> sanitizeSegments (w # s) = sanitizeSegments s"
proof -
  assume w: "isWhiteSpace w"
  then have "w \<noteq> DOT" using DOT_not_ws by auto
  moreover obtain p ps where sp: "split DOT s = p # ps"
    using split_not_Nil [of DOT s] by (cases "split DOT s") auto
  ultimately show ?thesis using w
    by (simp add: sanitizeSegments_def split_Cons trim_Cons_ws)
qed

lemma sanitize_snoc_ws: "isWhiteSpace w \<Longrightarrow> sanitizeSegments (s @ [w]) = sanitizeSegments s"
proof -
  assume w: "isWhiteSpace w"
  then have nd: "w \<noteq> DOT" using DOT_not_ws by auto
  have ne: "split DOT s \<noteq> []" by (rule split_not_Nil)
  have "map trim (split DOT (s @ [w])) = map trim (butlast (split DOT s) @ [last (split DOT s)])"
    using w by (simp add: split_snoc [OF nd] trim_snoc_ws)
  then show ?thesis using ne by (simp add: sanitizeSegments_def)
qed

lemma sanitize_dropWhile: "sanitizeSegments (dropWhile isWhiteSpace s) = sanitizeSegments s"
  by (induction s) (simp_all add: sanitize_Cons_ws)

lemma sanitize_rev_dropWhile:
  "sanitizeSegments (rev (dropWhile isWhiteSpace (rev s))) = sanitizeSegments s"
  by (induction s rule: rev_induct) (simp_all add: sanitize_snoc_ws)

lemma sanitize_trim: "sanitizeSegments (trim s) = sanitizeSegments s"
  by (simp add: trim_def sanitize_rev_dropWhile sanitize_dropWhile)

lemma join_snoc:
  "join sep (xs @ [t]) = (if xs = [] then t else join sep xs @ sep @ t)"
  by (induction sep xs rule: join.induct) simp_all

lemma length_join_snoc:
  "xs \<noteq> [] \<Longrightarrow> length (join sep (xs @ [t])) = length (join sep xs) + length sep + length t"
  by (simp add: join_snoc)

lemma length_join_append_ge:
  "xs \<noteq> [] \<Longrightarrow> ys \<noteq> [] \<Longrightarrow> length (join sep (xs @ ys)) \<ge> length (join sep xs) + length sep"
proof (induction ys rule: rev_induct)
  case Nil
  then show ?case by simp
next
  case (snoc y ys)
  show ?case
  proof (cases "ys = []")
    case True
    then show ?thesis using snoc.prems by (simp add: join_snoc)
  next
    case False
    then have "length (join sep xs) + length sep \<le> length (join sep (xs @ ys))"
      using snoc by simp
    moreover have "join sep (xs @ ys @ [y]) = join sep (xs @ ys) @ sep @ y"
      using join_snoc [of sep "xs @ ys" y] snoc.prems by simp
    ultimately show ?thesis by simp
  qed
qed

lemma join_prefix_changes:
  assumes "xs \<noteq> []" "ys \<noteq> []"
  shows "join [d] (xs @ ys @ [t]) \<noteq> join [d] (xs @ [t])"
proof -
  have "length (join [d] (xs @ ys @ [t])) = length (join [d] (xs @ ys)) + 1 + length t"
    using length_join_snoc [of "xs @ ys" "[d]" t] assms by simp
  moreover have "length (join [d] (xs @ [t])) = length (join [d] xs) + 1 + length t"
    using length_join_snoc [of xs "[d]" t] assms by simp
  moreover have "length (join [d] (xs @ ys)) \<ge> length (join [d] xs) + 1"
    using length_join_append_ge [of xs ys "[d]"] assms by simp
  ultimately have "length (join [d] (xs @ ys @ [t])) \<noteq> length (join [d] (xs @ [t]))"
    by linarith
  then show ?thesis by auto
qed

section \<open>Properties of the encoder\<close>

lemma buildConfig_segments:
  "buildConfig h e a =
     join [DOT] ([h, e, normalizeOption (Some (ticketValue a)) (fallbackTicket a)]
       @ (if includePadding a
          then sanitizeSegments (normalizeOption (Some (paddingValue a)) DEFAULT_VLESS_PADDING)
          else [])
       @ [authParam a])"
  by (simp add: buildConfig_def Let_def)

lemma normalizeOption_blank:
  "is_blank v \<Longrightarrow> normalizeOption (Some v) fallback = fallback"
  using trim_eq_Nil_iff [of v] by (simp add: normalizeOption_def is_blank_def Let_def)

lemma normalizeOption_not_blank:
  "\<not> is_blank v \<Longrightarrow> normalizeOption (Some v) fallback = trim v"
  using trim_eq_Nil_iff [of v] by (auto simp add: normalizeOption_def is_blank_def Let_def)

lemma sanitize_normalizeOption:
  "sanitizeSegments (normalizeOption (Some v) DEFAULT_VLESS_PADDING) =
     padding_pieces is_blank v"
proof (cases "is_blank v")
  case True
  then show ?thesis
    by (simp add: normalizeOption_blank padding_pieces_def sanitizeSegments_def)
next
  case False
  then show ?thesis
    using sanitize_trim [of v]
    by (simp add: normalizeOption_not_blank padding_pieces_def sanitizeSegments_def)
qed

lemma vlessResultData_strings:
  "decryption (x25519 (vlessResultData opts xs xc ms mc)) = join [DOT] (server_segments opts @ [xs])"
  "encryption (x25519 (vlessResultData opts xs xc ms mc)) = join [DOT] (client_segments opts @ [xc])"
  "decryption (mlkem768 (vlessResultData opts xs xc ms mc)) = join [DOT] (server_segments opts @ [ms])"
  "encryption (mlkem768 (vlessResultData opts xs xc ms mc)) = join [DOT] (client_segments opts @ [mc])"
  by (simp_all add: vlessResultData_def Let_def buildConfig_segments server_segments_def client_segments_def)

lemmas str_eval = str_def DOT_def isWhiteSpace_def trim_def

text \<open>
  Claim C2. With handshake method \<^verbatim>\<open>mlkem768x25519plus\<close>, encryption method \<^verbatim>\<open>native\<close>,
  server ticket \<^verbatim>\<open>600s\<close>, server padding not included and server token \<^verbatim>\<open>ABC\<close>, the
  server-role string of either variant is \<^verbatim>\<open>mlkem768x25519plus.native.600s.ABC\<close>, the
  segments handshake, encryption, ticket, token joined with dots. The other options and
  the other tokens are arbitrary.
\<close>

theorem C2_decryption_example:
  "decryption (x25519 (vlessResultData
      (opts\<lparr>handshakeMethod := str ''mlkem768x25519plus'', encryptionMethod := str ''native'',
            serverTicket := str ''600s'', includeServerPadding := False\<rparr>)
      (str ''ABC'') xc ms mc)) = str ''mlkem768x25519plus.native.600s.ABC''
   \<and> decryption (mlkem768 (vlessResultData
      (opts\<lparr>handshakeMethod := str ''mlkem768x25519plus'', encryptionMethod := str ''native'',
            serverTicket := str ''600s'', includeServerPadding := False\<rparr>)
      xs xc (str ''ABC'') mc)) = str ''mlkem768x25519plus.native.600s.ABC''
   \<and> str ''mlkem768x25519plus.native.600s.ABC'' =
       join [DOT] [str ''mlkem768x25519plus'', str ''native'', str ''600s'', str ''ABC'']"
  by (simp add: vlessResultData_strings server_segments_def normalizeOption_def str_eval)

text \<open>
  Claim C3 as stated takes the default padding only when the padding string is empty. At
  the padding string of one space with the flag set, the dialog inserts the pieces of the
  default padding, where the stated procedure inserts none.
\<close>

theorem C3_counterexample:
  "decryption (x25519 (vlessResultData
      (createDefaultVlessOptions\<lparr>includeServerPadding := True, serverPadding := str '' ''\<rparr>)
      (str ''ABC'') (str ''DEF'') (str ''GHI'') (str ''JKL'')))
     = str ''mlkem768x25519plus.native.600s.100-111-1111.75-0-111.50-0-3333.ABC''
   \<and> join [DOT] ([str ''mlkem768x25519plus'', str ''native'', str ''600s'']
         @ padding_pieces is_empty (str '' '') @ [str ''ABC''])
     = str ''mlkem768x25519plus.native.600s.ABC''"
  by (simp add: vlessResultData_strings server_segments_def normalizeOption_def str_eval
      createDefaultVlessOptions_def DEFAULT_VLESS_HANDSHAKE_def DEFAULT_VLESS_ENCRYPTION_def
      DEFAULT_VLESS_SERVER_TICKET_def DEFAULT_VLESS_PADDING_def sanitizeSegments_def split_def
      padding_pieces_def is_empty_def)

text \<open>
  Claim C3, amended. With the padding flag set, the encoder takes the padding string, or
  the default padding string when it is empty or whitespace only, splits it on the dot,
  trims each piece, drops the empty pieces and inserts the rest in order between the
  ticket and the token. With the flag unset the string has no padding segment, whatever
  the padding string. With server padding \<^verbatim>\<open>10-20.30-40\<close> included, the base example
  gives \<^verbatim>\<open>mlkem768x25519plus.native.600s.10-20.30-40.ABC\<close>.
\<close>

theorem C3_padding_segments:
  "(includePadding a \<longrightarrow>
      buildConfig h e a =
        join [DOT] ([h, e, normalizeOption (Some (ticketValue a)) (fallbackTicket a)]
                    @ padding_pieces is_blank (paddingValue a) @ [authParam a]))
   \<and> (\<not> includePadding a \<longrightarrow>
      buildConfig h e a =
        join [DOT] [h, e, normalizeOption (Some (ticketValue a)) (fallbackTicket a), authParam a])
   \<and> decryption (x25519 (vlessResultData
        (opts\<lparr>handshakeMethod := str ''mlkem768x25519plus'', encryptionMethod := str ''native'',
              serverTicket := str ''600s'', includeServerPadding := True,
              serverPadding := str ''10-20.30-40''\<rparr>)
        (str ''ABC'') xc ms mc)) = str ''mlkem768x25519plus.native.600s.10-20.30-40.ABC''"
proof -
  have "decryption (x25519 (vlessResultData
        (opts\<lparr>handshakeMethod := str ''mlkem768x25519plus'', encryptionMethod := str ''native'',
              serverTicket := str ''600s'', includeServerPadding := True,
              serverPadding := str ''10-20.30-40''\<rparr>)
        (str ''ABC'') xc ms mc)) = str ''mlkem768x25519plus.native.600s.10-20.30-40.ABC''"
    by (simp add: vlessResultData_strings server_segments_def normalizeOption_def str_eval
        sanitizeSegments_def split_def)
  then show ?thesis
    by (simp add: buildConfig_segments sanitize_normalizeOption)
qed

text \<open>The amended claim C3 at a padding string with blank and empty pieces.\<close>

theorem C3_padding_segments_witness:
  "buildConfig (str ''h'') (str ''e'')
     \<lparr>ticketValue = str '' '', paddingValue = str '' 1-2 . .3-4'', includePadding = True,
      authParam = str ''K'', fallbackTicket = str ''600s''\<rparr> = str ''h.e.600s.1-2.3-4.K''
   \<and> buildConfig (str ''h'') (str ''e'')
     \<lparr>ticketValue = str '' '', paddingValue = str '' 1-2 . .3-4'', includePadding = False,
      authParam = str ''K'', fallbackTicket = str ''600s''\<rparr> = str ''h.e.600s.K''"
  using C3_padding_segments [of "\<lparr>ticketValue = str '' '', paddingValue = str '' 1-2 . .3-4'',
      includePadding = True, authParam = str ''K'', fallbackTicket = str ''600s''\<rparr>"
      "str ''h''" "str ''e''"]
    C3_padding_segments [of "\<lparr>ticketValue = str '' '', paddingValue = str '' 1-2 . .3-4'',
      includePadding = False, authParam = str ''K'', fallbackTicket = str ''600s''\<rparr>"
      "str ''h''" "str ''e''"]
  by (simp add: padding_pieces_def is_blank_def normalizeOption_def str_eval split_def)






lemma segments_not_Nil: "server_segments opts \<noteq> []" "client_segments opts \<noteq> []"
  by (simp_all add: server_segments_def client_segments_def)

lemma join_token_eq:
  "cs \<noteq> [] \<Longrightarrow> cs' \<noteq> [] \<Longrightarrow>
   (join [d] (cs' @ [t]) = join [d] (cs @ [t])) = (join [d] cs' = join [d] cs)"
  by (simp add: join_snoc)

lemma client_segments_toggle:
  "client_segments (opts\<lparr>includeClientPadding := True\<rparr>) =
     client_segments (opts\<lparr>includeClientPadding := False\<rparr>) @ padding_pieces is_blank (clientPadding opts)"
  by (simp add: client_segments_def sanitize_normalizeOption)

lemma server_segments_toggle:
  "server_segments (opts\<lparr>includeClientPadding := b\<rparr>) = server_segments opts"
  by (simp add: server_segments_def)

lemma generateVLESSEncryption_completes:
  assumes "completes VlessEncryptionKind p s"
  shows "\<exists>xs xc ms mc. generatedVLESS (generateVLESSEncryption p s)
            = Some (vlessResultData (vlessOptions s) xs xc ms mc)"
proof -
  obtain kp where kp: "generateKeyPair p = Inr kp"
    using assms by (cases "generateKeyPair p") (auto simp: completes_def)
  obtain f where f: "random_source p = Inr f"
    using assms by (cases "random_source p") (auto simp: completes_def mlkem_throws_def)
  obtain pk sk where d: "deriveKeyPair p (map f [0..<64]) = Inr (pk, sk)"
    using assms f by (cases "deriveKeyPair p (map f [0..<64])") (auto simp: completes_def mlkem_throws_def)
  show ?thesis
    using kp f d
    by (simp add: generateVLESSEncryption_def crypto_getRandomValues_def Uint8Array_def
        Let_def emit_def showResultDialog_def) blast
qed

text \<open>
  Claim C5 as stated has the toggle of \<^verbatim>\<open>includeClientPadding\<close> change the client-role
  string of both variants. At the client padding \<^verbatim>\<open>.\<close>, whose pieces are all empty, the
  strings with the flag set are the strings with the flag unset, for both variants.
\<close>

theorem C5_counterexample:
  "encryption (x25519 (vlessResultData
       (createDefaultVlessOptions\<lparr>clientPadding := str ''.'', includeClientPadding := True\<rparr>)
       (str ''ABC'') (str ''DEF'') (str ''GHI'') (str ''JKL'')))
     = str ''mlkem768x25519plus.native.0rtt.DEF''
   \<and> encryption (x25519 (vlessResultData
       (createDefaultVlessOptions\<lparr>clientPadding := str ''.'', includeClientPadding := False\<rparr>)
       (str ''ABC'') (str ''DEF'') (str ''GHI'') (str ''JKL'')))
     = str ''mlkem768x25519plus.native.0rtt.DEF''
   \<and> encryption (mlkem768 (vlessResultData
       (createDefaultVlessOptions\<lparr>clientPadding := str ''.'', includeClientPadding := True\<rparr>)
       (str ''ABC'') (str ''DEF'') (str ''GHI'') (str ''JKL'')))
     = str ''mlkem768x25519plus.native.0rtt.JKL''
   \<and> encryption (mlkem768 (vlessResultData
       (createDefaultVlessOptions\<lparr>clientPadding := str ''.'', includeClientPadding := False\<rparr>)
       (str ''ABC'') (str ''DEF'') (str ''GHI'') (str ''JKL'')))
     = str ''mlkem768x25519plus.native.0rtt.JKL''"
  by (simp add: vlessResultData_strings client_segments_def normalizeOption_def str_eval
      sanitizeSegments_def split_def createDefaultVlessOptions_def DEFAULT_VLESS_HANDSHAKE_def
      DEFAULT_VLESS_ENCRYPTION_def DEFAULT_VLESS_RESUME_def VLESS_RESUME_OPTIONS_def)

text \<open>
  Claim C5, amended. In one result both variants are computed from the one options
  value: for each role the strings of the two variants are the same option-derived
  segments followed by the variant's own token, and a completed generation call stores
  such a result for the options of the dialog. Toggling only \<^verbatim>\<open>includeClientPadding\<close>
  changes the client-role string of one variant exactly when it changes that of the
  other: it changes both when the client padding (the default when it is blank) has a
  non-empty piece, and neither when it has none. It leaves both server-role strings as
  they are.
\<close>

theorem C5_variants_share_options:
  "decryption (x25519 (vlessResultData opts xs xc ms mc)) = join [DOT] (server_segments opts @ [xs])
   \<and> decryption (mlkem768 (vlessResultData opts xs xc ms mc)) = join [DOT] (server_segments opts @ [ms])
   \<and> encryption (x25519 (vlessResultData opts xs xc ms mc)) = join [DOT] (client_segments opts @ [xc])
   \<and> encryption (mlkem768 (vlessResultData opts xs xc ms mc)) = join [DOT] (client_segments opts @ [mc])
   \<and> (completes VlessEncryptionKind p s \<longrightarrow>
        (\<exists>xs xc ms mc. generatedVLESS (generateVLESSEncryption p s)
            = Some (vlessResultData (vlessOptions s) xs xc ms mc)))
   \<and> (opts' = opts\<lparr>includeClientPadding := \<not> includeClientPadding opts\<rparr> \<longrightarrow>
        ((encryption (x25519 (vlessResultData opts' xs xc ms mc))
             \<noteq> encryption (x25519 (vlessResultData opts xs xc ms mc)))
          = (encryption (mlkem768 (vlessResultData opts' xs xc ms mc))
             \<noteq> encryption (mlkem768 (vlessResultData opts xs xc ms mc))))
        \<and> (padding_pieces is_blank (clientPadding opts) \<noteq> [] \<longrightarrow>
             encryption (x25519 (vlessResultData opts' xs xc ms mc))
               \<noteq> encryption (x25519 (vlessResultData opts xs xc ms mc))
             \<and> encryption (mlkem768 (vlessResultData opts' xs xc ms mc))
               \<noteq> encryption (mlkem768 (vlessResultData opts xs xc ms mc)))
        \<and> (padding_pieces is_blank (clientPadding opts) = [] \<longrightarrow>
             encryption (x25519 (vlessResultData opts' xs xc ms mc))
               = encryption (x25519 (vlessResultData opts xs xc ms mc))
             \<and> encryption (mlkem768 (vlessResultData opts' xs xc ms mc))
               = encryption (mlkem768 (vlessResultData opts xs xc ms mc)))
        \<and> decryption (x25519 (vlessResultData opts' xs xc ms mc))
             = decryption (x25519 (vlessResultData opts xs xc ms mc))
        \<and> decryption (mlkem768 (vlessResultData opts' xs xc ms mc))
             = decryption (mlkem768 (vlessResultData opts xs xc ms mc)))"
proof -
  let ?o' = "opts\<lparr>includeClientPadding := \<not> includeClientPadding opts\<rparr>"
  let ?base = "client_segments (opts\<lparr>includeClientPadding := False\<rparr>)"
  let ?pad = "padding_pieces is_blank (clientPadding opts)"
  have base: "?base \<noteq> []" by (rule segments_not_Nil)
  have segs: "(client_segments opts = ?base \<and> client_segments ?o' = ?base @ ?pad)
      \<or> (client_segments opts = ?base @ ?pad \<and> client_segments ?o' = ?base)"
    using client_segments_toggle [of opts]
    by (cases "includeClientPadding opts") (simp_all add: client_segments_def)
  have same: "(join [DOT] (client_segments ?o' @ [xc]) \<noteq> join [DOT] (client_segments opts @ [xc]))
      = (join [DOT] (client_segments ?o' @ [mc]) \<noteq> join [DOT] (client_segments opts @ [mc]))"
    by (simp add: join_token_eq segments_not_Nil)
  have change: "?pad \<noteq> [] \<Longrightarrow>
      join [DOT] (client_segments ?o' @ [t]) \<noteq> join [DOT] (client_segments opts @ [t])" for t
    using segs join_prefix_changes [OF base, of ?pad DOT t] by auto
  have keep: "?pad = [] \<Longrightarrow>
      join [DOT] (client_segments ?o' @ [t]) = join [DOT] (client_segments opts @ [t])" for t
    using segs by auto
  have toggle: "((encryption (x25519 (vlessResultData ?o' xs xc ms mc))
             \<noteq> encryption (x25519 (vlessResultData opts xs xc ms mc)))
          = (encryption (mlkem768 (vlessResultData ?o' xs xc ms mc))
             \<noteq> encryption (mlkem768 (vlessResultData opts xs xc ms mc))))
        \<and> (?pad \<noteq> [] \<longrightarrow>
             encryption (x25519 (vlessResultData ?o' xs xc ms mc))
               \<noteq> encryption (x25519 (vlessResultData opts xs xc ms mc))
             \<and> encryption (mlkem768 (vlessResultData ?o' xs xc ms mc))
               \<noteq> encryption (mlkem768 (vlessResultData opts xs xc ms mc)))
        \<and> (?pad = [] \<longrightarrow>
             encryption (x25519 (vlessResultData ?o' xs xc ms mc))
               = encryption (x25519 (vlessResultData opts xs xc ms mc))
             \<and> encryption (mlkem768 (vlessResultData ?o' xs xc ms mc))
               = encryption (mlkem768 (vlessResultData opts xs xc ms mc)))
        \<and> decryption (x25519 (vlessResultData ?o' xs xc ms mc))
             = decryption (x25519 (vlessResultData opts xs xc ms mc))
        \<and> decryption (mlkem768 (vlessResultData ?o' xs xc ms mc))
             = decryption (mlkem768 (vlessResultData opts xs xc ms mc))"
    unfolding vlessResultData_strings server_segments_toggle
    using same change keep by blast
  show ?thesis
    using toggle generateVLESSEncryption_completes [of p s]
    by (simp add: vlessResultData_strings)
qed

text \<open>
  The amended claim C5 at the default options with the client padding switched on, and at
  the client padding \<^verbatim>\<open>.\<close>.
\<close>

theorem C5_variants_share_options_witness:
  "completes VlessEncryptionKind example_platform initial_state
   \<and> padding_pieces is_blank (clientPadding createDefaultVlessOptions) \<noteq> []
   \<and> generatedVLESS (generateVLESSEncryption example_platform initial_state) \<noteq> None
   \<and> encryption (x25519 (vlessResultData (createDefaultVlessOptions\<lparr>includeClientPadding := True\<rparr>)
         (str ''ABC'') (str ''DEF'') (str ''GHI'') (str ''JKL'')))
       \<noteq> encryption (x25519 (vlessResultData createDefaultVlessOptions
         (str ''ABC'') (str ''DEF'') (str ''GHI'') (str ''JKL'')))
   \<and> encryption (mlkem768 (vlessResultData (createDefaultVlessOptions\<lparr>includeClientPadding := True\<rparr>)
         (str ''ABC'') (str ''DEF'') (str ''GHI'') (str ''JKL'')))
       \<noteq> encryption (mlkem768 (vlessResultData createDefaultVlessOptions
         (str ''ABC'') (str ''DEF'') (str ''GHI'') (str ''JKL'')))
   \<and> padding_pieces is_blank (clientPadding (createDefaultVlessOptions\<lparr>clientPadding := str ''.''\<rparr>))
       = []
   \<and> encryption (x25519 (vlessResultData
         (createDefaultVlessOptions\<lparr>clientPadding := str ''.'', includeClientPadding := True\<rparr>)
         (str ''ABC'') (str ''DEF'') (str ''GHI'') (str ''JKL'')))
       = encryption (x25519 (vlessResultData (createDefaultVlessOptions\<lparr>clientPadding := str ''.''\<rparr>)
         (str ''ABC'') (str ''DEF'') (str ''GHI'') (str ''JKL'')))
   \<and> encryption (mlkem768 (vlessResultData
         (createDefaultVlessOptions\<lparr>clientPadding := str ''.'', includeClientPadding := True\<rparr>)
         (str ''ABC'') (str ''DEF'') (str ''GHI'') (str ''JKL'')))
       = encryption (mlkem768 (vlessResultData (createDefaultVlessOptions\<lparr>clientPadding := str ''.''\<rparr>)
         (str ''ABC'') (str ''DEF'') (str ''GHI'') (str ''JKL'')))"
proof -
  note t = C5_variants_share_options [of createDefaultVlessOptions "str ''ABC''" "str ''DEF''"
      "str ''GHI''" "str ''JKL''" example_platform initial_state
      "createDefaultVlessOptions\<lparr>includeClientPadding := True\<rparr>"]
  note u = C5_variants_share_options [of "createDefaultVlessOptions\<lparr>clientPadding := str ''.''\<rparr>"
      "str ''ABC''" "str ''DEF''" "str ''GHI''" "str ''JKL''" example_platform initial_state
      "createDefaultVlessOptions\<lparr>clientPadding := str ''.'', includeClientPadding := True\<rparr>"]
  have c: "completes VlessEncryptionKind example_platform initial_state"
    by (simp add: completes_def example_platform_def mlkem_throws_def)
  have pad: "padding_pieces is_blank (clientPadding createDefaultVlessOptions) \<noteq> []"
    by (simp add: padding_pieces_def is_blank_def createDefaultVlessOptions_def
        DEFAULT_VLESS_PADDING_def split_def str_eval)
  have nopad: "padding_pieces is_blank
      (clientPadding (createDefaultVlessOptions\<lparr>clientPadding := str ''.''\<rparr>)) = []"
    by (simp add: padding_pieces_def is_blank_def split_def str_eval)
  have tog: "createDefaultVlessOptions\<lparr>includeClientPadding := True\<rparr>
      = createDefaultVlessOptions\<lparr>includeClientPadding := \<not> includeClientPadding createDefaultVlessOptions\<rparr>"
    by (simp add: createDefaultVlessOptions_def)
  have tog2: "createDefaultVlessOptions\<lparr>clientPadding := str ''.'', includeClientPadding := True\<rparr>
      = (createDefaultVlessOptions\<lparr>clientPadding := str ''.''\<rparr>)
          \<lparr>includeClientPadding :=
             \<not> includeClientPadding (createDefaultVlessOptions\<lparr>clientPadding := str ''.''\<rparr>)\<rparr>"
    by (simp add: createDefaultVlessOptions_def)
  have g: "generatedVLESS (generateVLESSEncryption example_platform initial_state) \<noteq> None"
    using t c by auto
  have ch: "encryption (x25519 (vlessResultData (createDefaultVlessOptions\<lparr>includeClientPadding := True\<rparr>)
         (str ''ABC'') (str ''DEF'') (str ''GHI'') (str ''JKL'')))
       \<noteq> encryption (x25519 (vlessResultData createDefaultVlessOptions
         (str ''ABC'') (str ''DEF'') (str ''GHI'') (str ''JKL'')))
   \<and> encryption (mlkem768 (vlessResultData (createDefaultVlessOptions\<lparr>includeClientPadding := True\<rparr>)
         (str ''ABC'') (str ''DEF'') (str ''GHI'') (str ''JKL'')))
       \<noteq> encryption (mlkem768 (vlessResultData createDefaultVlessOptions
         (str ''ABC'') (str ''DEF'') (str ''GHI'') (str ''JKL'')))"
    using t pad tog by blast
  have un: "encryption (x25519 (vlessResultData
         (createDefaultVlessOptions\<lparr>clientPadding := str ''.'', includeClientPadding := True\<rparr>)
         (str ''ABC'') (str ''DEF'') (str ''GHI'') (str ''JKL'')))
       = encryption (x25519 (vlessResultData (createDefaultVlessOptions\<lparr>clientPadding := str ''.''\<rparr>)
         (str ''ABC'') (str ''DEF'') (str ''GHI'') (str ''JKL'')))
   \<and> encryption (mlkem768 (vlessResultData
         (createDefaultVlessOptions\<lparr>clientPadding := str ''.'', includeClientPadding := True\<rparr>)
         (str ''ABC'') (str ''DEF'') (str ''GHI'') (str ''JKL'')))
       = encryption (mlkem768 (vlessResultData (createDefaultVlessOptions\<lparr>clientPadding := str ''.''\<rparr>)
         (str ''ABC'') (str ''DEF'') (str ''GHI'') (str ''JKL'')))"
    using u nopad tog2 by blast
  show ?thesis using c pad g ch nopad un by blast
qed

section \<open>Properties of the text encoding layer\<close>

lemma index_of_nth: "distinct al \<Longrightarrow> i < length al \<Longrightarrow> index_of al (al ! i) = Some i"
proof (induction al arbitrary: i)
  case Nil
  then show ?case by simp
next
  case (Cons a al)
  show ?case
  proof (cases i)
    case 0
    then show ?thesis by simp
  next
    case (Suc j)
    then have "al ! j \<noteq> a" using Cons.prems by auto
    then show ?thesis using Suc Cons by simp
  qed
qed

lemma base64_standard_length: "length base64_standard = 64"
  by (simp add: base64_standard_def str_def)

lemma base64_standard_distinct: "distinct base64_standard"
  by (simp add: base64_standard_def str_def)

lemma base64_standard_set:
  "PAD \<notin> set base64_standard"
  "of_char CHR ''-'' \<notin> set base64_standard"
  "of_char CHR ''_'' \<notin> set base64_standard"
  by (simp_all add: base64_standard_def str_def PAD_def)

lemma digit_index: "i < 64 \<Longrightarrow> index_of base64_standard (base64_standard ! i) = Some i"
  by (simp add: index_of_nth base64_standard_distinct base64_standard_length)

lemma digit_in_alphabet: "i < 64 \<Longrightarrow> base64_standard ! i \<in> set base64_standard"
  by (simp add: base64_standard_length)

lemma digit_not_PAD: "i < 64 \<Longrightarrow> base64_standard ! i \<noteq> PAD"
  using base64_standard_set(1) digit_in_alphabet [of i] by auto

lemma sextet_bounds:
  fixes a b c :: nat
  assumes "a < 256" "b < 256" "c < 256"
  shows "a div 4 < 64" "(a mod 4) * 16 + b div 16 < 64" "(b mod 16) * 4 + c div 64 < 64"
    "c mod 64 < 64" "(a mod 4) * 16 < 64" "(b mod 16) * 4 < 64"
proof -
  show "a div 4 < 64" using assms by simp
  have "a mod 4 < 4" "b div 16 < 16" "b mod 16 < 16" "c div 64 < 4" using assms by simp_all
  then show "(a mod 4) * 16 + b div 16 < 64" "(b mod 16) * 4 + c div 64 < 64"
     "(a mod 4) * 16 < 64" "(b mod 16) * 4 < 64" by linarith+
  show "c mod 64 < 64" by simp
qed

lemma pack_div_mod:
  fixes x k m :: nat
  assumes "x < k"
  shows "(m * k + x) div k = m" "(m * k + x) mod k = x"
  using assms by simp_all

lemma octets_restored:
  fixes a b c :: nat
  assumes "b < 256" "c < 256"
  shows "a div 4 * 4 + (a mod 4 * 16 + b div 16) div 16 = a"
    "(a mod 4 * 16 + b div 16) mod 16 * 16 + (b mod 16 * 4 + c div 64) div 4 = b"
    "(b mod 16 * 4 + c div 64) mod 4 * 64 + c mod 64 = c"
proof -
  have b: "b div 16 < 16" and c: "c div 64 < 4" using assms by simp_all
  show "a div 4 * 4 + (a mod 4 * 16 + b div 16) div 16 = a"
    by (simp add: pack_div_mod [OF b])
  show "(a mod 4 * 16 + b div 16) mod 16 * 16 + (b mod 16 * 4 + c div 64) div 4 = b"
    using b by (simp add: pack_div_mod [OF b] pack_div_mod [OF c])
  show "(b mod 16 * 4 + c div 64) mod 4 * 64 + c mod 64 = c"
    using c by (simp add: pack_div_mod [OF c])
qed


lemma decode_last1:
  assumes "a < 256"
  shows "base64_decode base64_standard (base64_encode base64_standard [a]) = Some [a]"
  using assms sextet_bounds [of a 0 0]
  by (simp add: digit_index digit_not_PAD)


lemma decode_last2:
  assumes "a < 256" "b < 256"
  shows "base64_decode base64_standard (base64_encode base64_standard [a, b]) = Some [a, b]"
proof -
  have i: "index_of base64_standard (base64_standard ! (a div 4)) = Some (a div 4)"
    "index_of base64_standard (base64_standard ! (a mod 4 * 16 + b div 16)) = Some (a mod 4 * 16 + b div 16)"
    "index_of base64_standard (base64_standard ! (b mod 16 * 4)) = Some (b mod 16 * 4)"
    using assms sextet_bounds [of a b 0] by (simp_all add: digit_index)
  have n: "base64_standard ! (b mod 16 * 4) \<noteq> PAD"
    using assms sextet_bounds [of a b 0] by (simp add: digit_not_PAD)
  have ar: "a div 4 * 4 + (a mod 4 * 16 + b div 16) div 16 = a"
    "(a mod 4 * 16 + b div 16) mod 16 * 16 + (b mod 16 * 4 + 0 div 64) div 4 = b"
    using octets_restored [OF assms(2) zero_less_numeral] by simp_all
  have "base64_decode base64_standard
      [base64_standard ! (a div 4), base64_standard ! (a mod 4 * 16 + b div 16),
       base64_standard ! (b mod 16 * 4), PAD]
     = Some [a div 4 * 4 + (a mod 4 * 16 + b div 16) div 16,
             (a mod 4 * 16 + b div 16) mod 16 * 16 + (b mod 16 * 4) div 4]"
    by (simp add: i n del: mod_mult_self3 mod_mult_self4)
  then show ?thesis using ar by simp
qed

lemma decode_group:
  assumes "a < 256" "b < 256" "c < 256"
    and "base64_decode base64_standard (base64_encode base64_standard rest) = Some rest"
  shows "base64_decode base64_standard (base64_encode base64_standard (a # b # c # rest))
     = Some (a # b # c # rest)"
proof -
  have i: "index_of base64_standard (base64_standard ! (a div 4)) = Some (a div 4)"
    "index_of base64_standard (base64_standard ! (a mod 4 * 16 + b div 16)) = Some (a mod 4 * 16 + b div 16)"
    "index_of base64_standard (base64_standard ! (b mod 16 * 4 + c div 64)) = Some (b mod 16 * 4 + c div 64)"
    "index_of base64_standard (base64_standard ! (c mod 64)) = Some (c mod 64)"
    using assms sextet_bounds [of a b c] by (simp_all add: digit_index)
  have n: "base64_standard ! (b mod 16 * 4 + c div 64) \<noteq> PAD" "base64_standard ! (c mod 64) \<noteq> PAD"
    using assms sextet_bounds [of a b c] by (simp_all add: digit_not_PAD)
  note ar = octets_restored [OF assms(2) assms(3)]
  have "base64_decode base64_standard
      (base64_standard ! (a div 4) # base64_standard ! (a mod 4 * 16 + b div 16) #
       base64_standard ! (b mod 16 * 4 + c div 64) # base64_standard ! (c mod 64) #
       base64_encode base64_standard rest)
     = Some ([a div 4 * 4 + (a mod 4 * 16 + b div 16) div 16,
             (a mod 4 * 16 + b div 16) mod 16 * 16 + (b mod 16 * 4 + c div 64) div 4,
             (b mod 16 * 4 + c div 64) mod 4 * 64 + c mod 64] @ rest)"
    unfolding base64_decode.simps i using n assms(4) by (simp only: split: prod.splits option.splits) simp
  then show ?thesis unfolding ar by simp
qed

lemma base64_roundtrip:
  "\<forall>b \<in> set bs. b < 256 \<Longrightarrow>
   base64_decode base64_standard (base64_encode base64_standard bs) = Some bs"
proof (induction base64_standard bs rule: base64_encode.induct)
  case (1 a b c rest)
  then show ?case using decode_group [of a b c rest] by simp
next
  case (2 a b)
  then show ?case using decode_last2 [of a b] by simp
next
  case (3 a)
  then show ?case using decode_last1 [of a] by simp
next
  case 4
  then show ?case by simp
qed

lemma base64_encode_alphabet:
  "\<forall>b \<in> set bs. b < 256 \<Longrightarrow>
   set (base64_encode base64_standard bs) \<subseteq> set base64_standard \<union> {PAD}"
proof (induction base64_standard bs rule: base64_encode.induct)
  case (1 a b c rest)
  then show ?case using sextet_bounds [of a b c] by (simp add: digit_in_alphabet)
next
  case (2 a b)
  then show ?case using sextet_bounds [of a b 0] by (simp add: digit_in_alphabet)
next
  case (3 a)
  then show ?case using sextet_bounds [of a 0 0] by (simp add: digit_in_alphabet)
next
  case 4
  then show ?case by simp
qed

lemma fromCharCode_bytes: "\<forall>c \<in> set (fromCharCode bs). c < 256"
proof -
  have "unat b < 256" for b :: "8 word"
  proof -
    have "unat b < 2 ^ LENGTH(8)" by (rule unsigned_less)
    then show ?thesis by simp
  qed
  then show ?thesis by (auto simp add: fromCharCode_def)
qed

lemma btoa_fromCharCode:
  "btoa (fromCharCode bs) = Inr (base64_encode base64_standard (fromCharCode bs))"
  using fromCharCode_bytes [of bs] by (auto simp add: btoa_def)

section \<open>Properties of the generators\<close>

lemma methods_enumerated:
  "map (\<lambda>m. (m_value m, m_length m)) SHADOWSOCKS_ENCRYPTION_METHODS =
     [(str ''2022-blake3-aes-128-gcm'', 16), (str ''2022-blake3-aes-256-gcm'', 32)]"
  by (simp add: SHADOWSOCKS_ENCRYPTION_METHODS_def)

lemma find_method:
  "method \<in> set SHADOWSOCKS_ENCRYPTION_METHODS \<Longrightarrow>
   find (\<lambda>m. m_value m = m_value method) SHADOWSOCKS_ENCRYPTION_METHODS = Some method"
  by (auto simp add: SHADOWSOCKS_ENCRYPTION_METHODS_def str_def)

lemma find_unknown_method:
  "\<not> known_method v \<Longrightarrow> find (\<lambda>m. m_value m = v) SHADOWSOCKS_ENCRYPTION_METHODS = None"
  by (auto simp add: known_method_def find_None_iff)

lemma generateShadowsocksPassword_stores:
  assumes "method \<in> set SHADOWSOCKS_ENCRYPTION_METHODS" "random_source p = Inr f"
  shows "generatedShadowsocksPassword (generateShadowsocksPassword p (m_value method) s)
     = Some \<lparr>password = base64_encode base64_standard
                          (fromCharCode (map f [0..<m_length method])),
             ss_encryptionMethod = m_label method\<rparr>"
  using assms
  by (simp add: generateShadowsocksPassword_def find_method crypto_getRandomValues_def
      Uint8Array_def btoa_fromCharCode Let_def emit_def showResultDialog_def)

text \<open>
  Claim C6. For every method of the enumerated cipher set, whose key lengths are 16 and
  32, a call with that method on a working random source stores a password that is the
  standard base64 encoding of exactly \<open>m_length method\<close> random bytes: decoding it gives
  those bytes back, so the decoded length is the method's key length, and the password
  has no digit of the URL-safe alphabet.
\<close>

theorem C6_shadowsocks_password_length:
  assumes "method \<in> set SHADOWSOCKS_ENCRYPTION_METHODS" and "random_source p = Inr f"
  shows "\<exists>pw randomBytes.
      generatedShadowsocksPassword (generateShadowsocksPassword p (m_value method) s)
        = Some \<lparr>password = pw, ss_encryptionMethod = m_label method\<rparr>
      \<and> randomBytes = map f [0..<m_length method]
      \<and> length randomBytes = m_length method
      \<and> pw = base64_encode base64_standard (map unat randomBytes)
      \<and> base64_decode base64_standard pw = Some (map unat randomBytes)
      \<and> (\<forall>decoded. base64_decode base64_standard pw = Some decoded
            \<longrightarrow> length decoded = m_length method)
      \<and> set pw \<subseteq> set base64_standard \<union> {PAD}
      \<and> of_char CHR ''-'' \<notin> set pw \<and> of_char CHR ''_'' \<notin> set pw
      \<and> (m_value method, m_length method)
            \<in> {(str ''2022-blake3-aes-128-gcm'', 16), (str ''2022-blake3-aes-256-gcm'', 32)}"
proof -
  let ?bytes = "map f [0..<m_length method]"
  let ?pw = "base64_encode base64_standard (map unat ?bytes)"
  have stored: "generatedShadowsocksPassword (generateShadowsocksPassword p (m_value method) s)
        = Some \<lparr>password = ?pw, ss_encryptionMethod = m_label method\<rparr>"
    using generateShadowsocksPassword_stores [OF assms] by (simp add: fromCharCode_def)
  have small: "\<forall>b \<in> set (map unat ?bytes). b < 256"
    using fromCharCode_bytes [of ?bytes] by (simp add: fromCharCode_def)
  have dec: "base64_decode base64_standard ?pw = Some (map unat ?bytes)"
    using base64_roundtrip [OF small] .
  have alph: "set ?pw \<subseteq> set base64_standard \<union> {PAD}"
    using base64_encode_alphabet [OF small] .
  have nourl: "of_char CHR ''-'' \<notin> set ?pw" "of_char CHR ''_'' \<notin> set ?pw"
    using alph base64_standard_set by (auto simp add: PAD_def)
  have len: "(m_value method, m_length method)
      \<in> {(str ''2022-blake3-aes-128-gcm'', 16), (str ''2022-blake3-aes-256-gcm'', 32)}"
    using assms(1) by (auto simp add: SHADOWSOCKS_ENCRYPTION_METHODS_def)
  show ?thesis
    using stored dec alph nourl len by simp
qed

text \<open>Claim C6 at the 16-byte method with the random bytes 0 to 15.\<close>

theorem C6_shadowsocks_password_length_witness:
  "\<lparr>m_value = str ''2022-blake3-aes-128-gcm'', m_label = str ''2022-blake3-aes-128-gcm'',
     m_length = 16\<rparr> \<in> set SHADOWSOCKS_ENCRYPTION_METHODS
   \<and> random_source example_platform = Inr counting_bytes
   \<and> generatedShadowsocksPassword
        (generateShadowsocksPassword example_platform (str ''2022-blake3-aes-128-gcm'') initial_state)
      = Some \<lparr>password = str ''AAECAwQFBgcICQoLDA0ODw=='',
              ss_encryptionMethod = str ''2022-blake3-aes-128-gcm''\<rparr>
   \<and> base64_decode base64_standard (str ''AAECAwQFBgcICQoLDA0ODw=='')
      = Some [0, 1, 2, 3, 4, 5, 6, 7, 8, 9, 10, 11, 12, 13, 14, 15]"
proof -
  let ?m = "\<lparr>m_value = str ''2022-blake3-aes-128-gcm'', m_label = str ''2022-blake3-aes-128-gcm'',
     m_length = 16\<rparr>"
  have m: "?m \<in> set SHADOWSOCKS_ENCRYPTION_METHODS"
    by (simp add: SHADOWSOCKS_ENCRYPTION_METHODS_def)
  have r: "random_source example_platform = Inr counting_bytes"
    by (simp add: example_platform_def)
  have bytes: "map unat (map counting_bytes [0..<16])
      = [0, 1, 2, 3, 4, 5, 6, 7, 8, 9, 10, 11, 12, 13, 14, 15]"
    by (simp add: upt_rec counting_bytes_def)
  have enc: "base64_encode base64_standard [0, 1, 2, 3, 4, 5, 6, 7, 8, 9, 10, 11, 12, 13, 14, 15]
      = str ''AAECAwQFBgcICQoLDA0ODw==''"
    by (simp add: base64_standard_def str_def PAD_def)
  obtain pw randomBytes where
    stored: "generatedShadowsocksPassword
        (generateShadowsocksPassword example_platform (m_value ?m) initial_state)
      = Some \<lparr>password = pw, ss_encryptionMethod = m_label ?m\<rparr>"
    and rb: "randomBytes = map counting_bytes [0..<m_length ?m]"
    and pw: "pw = base64_encode base64_standard (map unat randomBytes)"
    and dec: "base64_decode base64_standard pw = Some (map unat randomBytes)"
    using C6_shadowsocks_password_length [OF m r, of initial_state] by blast
  have mb: "map unat randomBytes = [0, 1, 2, 3, 4, 5, 6, 7, 8, 9, 10, 11, 12, 13, 14, 15]"
    using rb bytes by simp
  have p: "pw = str ''AAECAwQFBgcICQoLDA0ODw==''"
    unfolding pw mb by (rule enc)
  have d: "base64_decode base64_standard (str ''AAECAwQFBgcICQoLDA0ODw=='')
      = Some [0, 1, 2, 3, 4, 5, 6, 7, 8, 9, 10, 11, 12, 13, 14, 15]"
    using dec unfolding p mb .
  have st: "generatedShadowsocksPassword
        (generateShadowsocksPassword example_platform (str ''2022-blake3-aes-128-gcm'') initial_state)
      = Some \<lparr>password = str ''AAECAwQFBgcICQoLDA0ODw=='',
              ss_encryptionMethod = str ''2022-blake3-aes-128-gcm''\<rparr>"
    using stored unfolding p by simp
  show ?thesis using m r st d by blast
qed

lemma keyPair_throws:
  "generateKeyPair p = Inl e \<Longrightarrow>
   generatePrivateAndPublicKey p s
     = s\<lparr>isGeneratingKeyPair := False,
          events := events s @ [Generation KeyPairKind,
            ToastError (Translated (str ''coreConfigModal.keyPairGenerationFailed''))]\<rparr>"
  by (simp add: generatePrivateAndPublicKey_def Let_def emit_def)

lemma shortId_throws:
  "random_source p = Inl e \<Longrightarrow>
   generateShortId p s
     = s\<lparr>isGeneratingShortId := False,
          events := events s @ [Generation ShortIdKind,
            ToastError (Translated (str ''coreConfigModal.shortIdGenerationFailed''))]\<rparr>"
  by (simp add: generateShortId_def crypto_getRandomValues_def Let_def emit_def)

lemma known_method_find:
  "known_method v \<Longrightarrow> \<exists>method. find (\<lambda>m. m_value m = v) SHADOWSOCKS_ENCRYPTION_METHODS = Some method
      \<and> method \<in> set SHADOWSOCKS_ENCRYPTION_METHODS \<and> m_value method = v"
  using find_method by (auto simp add: known_method_def)

lemma shadowsocks_throws:
  assumes "known_method v" "random_source p = Inl e"
  shows "generateShadowsocksPassword p v s
     = s\<lparr>isGeneratingShadowsocksPassword := False,
          events := events s @ [Generation ShadowsocksPasswordKind,
            ToastError (Translated (str ''coreConfigModal.shadowsocksPasswordGenerationFailed''))]\<rparr>"
proof -
  obtain cipher where "find (\<lambda>m. m_value m = v) SHADOWSOCKS_ENCRYPTION_METHODS = Some cipher"
    using known_method_find [OF assms(1)] by blast
  then show ?thesis using assms(2)
    by (simp add: generateShadowsocksPassword_def crypto_getRandomValues_def Let_def emit_def)
qed

lemma mldsa65_throws:
  "generateMldsa65 p = Inl e \<Longrightarrow>
   handleGenerateMldsa65 p s
     = s\<lparr>isGeneratingMldsa65 := False,
          events := events s @ [Generation SignatureKeyPairKind,
            ToastError (case e of Error m \<Rightarrow> Text m
               | Thrown \<Rightarrow> Translated (str ''coreConfigModal.mldsa65GenerationFailed''))]\<rparr>"
  by (simp add: handleGenerateMldsa65_def Let_def emit_def)

lemma vless_throws:
  assumes "isl (generateKeyPair p) \<or> mlkem_throws p"
  shows "generateVLESSEncryption p s
     = s\<lparr>isGeneratingVLESSEncryption := False,
          events := events s @ [Generation VlessEncryptionKind,
            ToastError (Translated (str ''coreConfigModal.vlessEncryptionGenerationFailed''))]\<rparr>"
proof (cases "generateKeyPair p")
  case (Inl e)
  then show ?thesis
    by (simp add: generateVLESSEncryption_def Let_def emit_def)
next
  case (Inr kp)
  then have m: "mlkem_throws p" using assms by simp
  show ?thesis
  proof (cases "random_source p")
    case (Inl e)
    then show ?thesis using Inr
      by (simp add: generateVLESSEncryption_def crypto_getRandomValues_def Let_def emit_def)
  next
    case r: (Inr f)
    then obtain e where "deriveKeyPair p (map f [0..<64]) = Inl e"
      using m by (cases "deriveKeyPair p (map f [0..<64])") (auto simp add: mlkem_throws_def)
    then show ?thesis using Inr r
      by (simp add: generateVLESSEncryption_def crypto_getRandomValues_def Uint8Array_def
          Let_def emit_def)
  qed
qed

lemma generate_throws:
  assumes "throws k p s"
  shows "\<exists>m. generate k p s =
     (case k of
        KeyPairKind \<Rightarrow> s\<lparr>isGeneratingKeyPair := False,
                          events := events s @ [Generation k, ToastError m]\<rparr>
      | ShortIdKind \<Rightarrow> s\<lparr>isGeneratingShortId := False,
                          events := events s @ [Generation k, ToastError m]\<rparr>
      | ShadowsocksPasswordKind \<Rightarrow> s\<lparr>isGeneratingShadowsocksPassword := False,
                          events := events s @ [Generation k, ToastError m]\<rparr>
      | SignatureKeyPairKind \<Rightarrow> s\<lparr>isGeneratingMldsa65 := False,
                          events := events s @ [Generation k, ToastError m]\<rparr>
      | VlessEncryptionKind \<Rightarrow> s\<lparr>isGeneratingVLESSEncryption := False,
                          events := events s @ [Generation k, ToastError m]\<rparr>)"
proof (cases k)
  case KeyPairKind
  then obtain e where "generateKeyPair p = Inl e"
    using assms by (cases "generateKeyPair p") (auto simp add: throws_def)
  then show ?thesis using KeyPairKind by (simp add: generate_def keyPair_throws) (rule exI, rule refl)
next
  case ShortIdKind
  then obtain e where "random_source p = Inl e"
    using assms by (cases "random_source p") (auto simp add: throws_def)
  then show ?thesis using ShortIdKind by (simp add: generate_def shortId_throws) (rule exI, rule refl)
next
  case ShadowsocksPasswordKind
  then obtain e where "random_source p = Inl e" and "known_method (selectedEncryptionMethod s)"
    using assms by (cases "random_source p") (auto simp add: throws_def)
  then show ?thesis using ShadowsocksPasswordKind by (simp add: generate_def shadowsocks_throws) (rule exI, rule refl)
next
  case SignatureKeyPairKind
  then obtain e where "generateMldsa65 p = Inl e"
    using assms by (cases "generateMldsa65 p") (auto simp add: throws_def)
  then show ?thesis using SignatureKeyPairKind by (simp add: generate_def mldsa65_throws) (rule exI, rule refl)
next
  case VlessEncryptionKind
  then have "isl (generateKeyPair p) \<or> mlkem_throws p"
    using assms by (simp add: throws_def)
  then show ?thesis using VlessEncryptionKind by (simp add: generate_def vless_throws) (rule exI, rule refl)
qed

text \<open>
  Claim C9. When a call inside the \<^verbatim>\<open>try\<close> block of a generation function throws, the
  function still returns a state (the exception ends in the \<^verbatim>\<open>catch\<close> block): the cache
  entry of that kind, and of every kind, is what it was before the call, the in-progress
  flag of the kind is cleared, exactly one error notification follows the call, and the
  result dialog is untouched.
\<close>

theorem C9_failing_generation_atomic:
  assumes "throws k p s"
  shows "cache k (generate k p s) = cache k s
    \<and> (\<forall>k'. cache k' (generate k p s) = cache k' s)
    \<and> \<not> in_progress k (generate k p s)
    \<and> (\<exists>m. events (generate k p s) = events s @ [Generation k, ToastError m])
    \<and> resultType (generate k p s) = resultType s
    \<and> resultData (generate k p s) = resultData s
    \<and> isResultsDialogOpen (generate k p s) = isResultsDialogOpen s"
proof -
  obtain m where g: "generate k p s =
     (case k of
        KeyPairKind \<Rightarrow> s\<lparr>isGeneratingKeyPair := False,
                          events := events s @ [Generation k, ToastError m]\<rparr>
      | ShortIdKind \<Rightarrow> s\<lparr>isGeneratingShortId := False,
                          events := events s @ [Generation k, ToastError m]\<rparr>
      | ShadowsocksPasswordKind \<Rightarrow> s\<lparr>isGeneratingShadowsocksPassword := False,
                          events := events s @ [Generation k, ToastError m]\<rparr>
      | SignatureKeyPairKind \<Rightarrow> s\<lparr>isGeneratingMldsa65 := False,
                          events := events s @ [Generation k, ToastError m]\<rparr>
      | VlessEncryptionKind \<Rightarrow> s\<lparr>isGeneratingVLESSEncryption := False,
                          events := events s @ [Generation k, ToastError m]\<rparr>)"
    using generate_throws [OF assms] by blast
  have c: "cache k' (generate k p s) = cache k' s" for k'
    unfolding g by (cases k; cases k') (simp_all add: cache_def)
  have f: "\<not> in_progress k (generate k p s)"
    unfolding g by (cases k) (simp_all add: in_progress_def)
  have e: "events (generate k p s) = events s @ [Generation k, ToastError m]"
    unfolding g by (cases k) simp_all
  have r: "resultType (generate k p s) = resultType s"
    "resultData (generate k p s) = resultData s"
    "isResultsDialogOpen (generate k p s) = isResultsDialogOpen s"
    unfolding g by (cases k; simp)+
  show ?thesis using c f e r by blast
qed

lemma type_name_inject: "type_name k = type_name k' \<longleftrightarrow> k = k'"
  by (cases k; cases k') (simp_all add: type_name_def str_def)

lemma showResultDialog_keeps:
  "cache k (showResultDialog t d s) = cache k s"
  "cached k (showResultDialog t d s) = cached k s"
  "events (showResultDialog t d s) = events s"
  by (cases k; simp add: cache_def cached_def showResultDialog_def)+

lemma view_cached:
  assumes "cached k s"
  shows "view k p s = showResultDialog (type_name k) (the (cache k s)) s"
  using assms
  by (cases k)
    (auto simp add: cached_def cache_def view_def type_name_def viewKeyPair_def viewShortId_def
      viewShadowsocksPassword_def viewMldsa65_def viewVLESS_def split: option.splits)

lemma view_not_cached:
  assumes "\<not> cached k s" "k \<noteq> VlessEncryptionKind"
  shows "view k p s = generate k p s"
  using assms
  by (cases k)
    (auto simp add: cached_def cache_def view_def generate_def viewKeyPair_def viewShortId_def
      viewShadowsocksPassword_def viewMldsa65_def split: option.splits)

lemma view_vless_not_cached:
  assumes "\<not> cached VlessEncryptionKind s"
  shows "view VlessEncryptionKind p s = s\<lparr>isVlessAdvancedModalOpen := True\<rparr>"
  using assms
  by (auto simp add: cached_def cache_def view_def viewVLESS_def split: option.splits)

lemma regenerate_kind:
  assumes "k \<noteq> VlessEncryptionKind" "resultType s = Some (type_name k)"
  shows "regenerate p s = generate k p s"
  using assms
  by (cases k) (simp_all add: regenerate_def generate_def type_name_def str_def)

lemma regenerate_vless:
  assumes "resultType s = Some (type_name VlessEncryptionKind)"
  shows "regenerate p s = s\<lparr>isVlessAdvancedModalOpen := True, isResultsDialogOpen := False\<rparr>"
  using assms
  by (simp add: regenerate_def type_name_def str_def)

lemma toString16_length: "length (toString16 b) = 1 \<or> length (toString16 b) = 2"
  by (simp add: toString16_def Let_def)

lemma padStart_hex_length: "length (padStart 2 c (toString16 b)) = 2"
  using toString16_length [of b] by (auto simp add: padStart_def)

lemma join_empty_sep: "join [] xs = concat xs"
  by (induction "[] :: jsstring" xs rule: join.induct) simp_all

lemma length_concat_const:
  "\<forall>x \<in> set xs. length x = n \<Longrightarrow> length (concat xs) = n * length xs"
  by (induction xs) simp_all

lemma shortId_length:
  "length (join [] (map (\<lambda>byte. padStart 2 c (toString16 byte)) randomBytes))
     = 2 * length randomBytes"
  using length_concat_const [of "map (\<lambda>byte. padStart 2 c (toString16 byte)) randomBytes" 2]
  by (simp add: join_empty_sep padStart_hex_length)

lemma keyPair_completes:
  "generateKeyPair p = Inr kp \<Longrightarrow>
   generatePrivateAndPublicKey p s
     = (let d = \<lparr>publicKey = remove_all NEWLINE (remove_all PAD (encodeURLSafe (kp_publicKey kp))),
                 privateKey = remove_all NEWLINE (remove_all PAD (encodeURLSafe (kp_secretKey kp)))\<rparr>
        in s\<lparr>generatedKeyPair := Some d, resultType := Some (str ''keyPair''),
             resultData := Some (KeyPairData d), isResultsDialogOpen := True,
             isGeneratingKeyPair := False,
             events := events s @ [Generation KeyPairKind,
               ToastSuccess (Translated (str ''coreConfigModal.keyPairGenerated''))]\<rparr>)"
  by (simp add: generatePrivateAndPublicKey_def Let_def emit_def showResultDialog_def)

lemma shortId_completes:
  "random_source p = Inr f \<Longrightarrow>
   generateShortId p s
     = (let d = join [] (map (\<lambda>byte. padStart 2 (of_char CHR ''0'') (toString16 byte))
                           (map f [0..<8]))
        in s\<lparr>generatedShortId := Some d, resultType := Some (str ''shortId''),
             resultData := Some (ShortIdData d), isResultsDialogOpen := True,
             isGeneratingShortId := False,
             events := events s @ [Generation ShortIdKind,
               ToastSuccess (Translated (str ''coreConfigModal.shortIdGenerated''))]\<rparr>)"
  by (simp add: generateShortId_def crypto_getRandomValues_def Uint8Array_def Let_def emit_def
      showResultDialog_def)

lemma shadowsocks_completes:
  assumes "method \<in> set SHADOWSOCKS_ENCRYPTION_METHODS" "random_source p = Inr f"
  shows "generateShadowsocksPassword p (m_value method) s
     = (let d = \<lparr>password = base64_encode base64_standard
                               (fromCharCode (map f [0..<m_length method])),
                 ss_encryptionMethod = m_label method\<rparr>
        in s\<lparr>generatedShadowsocksPassword := Some d,
             resultType := Some (str ''shadowsocksPassword''),
             resultData := Some (ShadowsocksData d), isResultsDialogOpen := True,
             isGeneratingShadowsocksPassword := False,
             events := events s @ [Generation ShadowsocksPasswordKind,
               ToastSuccess (Translated (str ''coreConfigModal.shadowsocksPasswordGenerated''))]\<rparr>)"
  using assms
  by (simp add: generateShadowsocksPassword_def find_method crypto_getRandomValues_def
      Uint8Array_def btoa_fromCharCode Let_def emit_def showResultDialog_def)

lemma mldsa65_completes:
  "generateMldsa65 p = Inr d \<Longrightarrow>
   handleGenerateMldsa65 p s
     = s\<lparr>generatedMldsa65 := Some d, resultType := Some (str ''mldsa65''),
          resultData := Some (Mldsa65Data d), isResultsDialogOpen := True,
          isGeneratingMldsa65 := False,
          events := events s @ [Generation SignatureKeyPairKind,
            ToastSuccess (Translated (str ''coreConfigModal.mldsa65Generated''))]\<rparr>"
  by (simp add: handleGenerateMldsa65_def Let_def emit_def showResultDialog_def)

lemma vless_completes:
  assumes "generateKeyPair p = Inr kp" "random_source p = Inr f"
    "deriveKeyPair p (map f [0..<64]) = Inr (pk, sk)"
  shows "generateVLESSEncryption p s
     = (let d = vlessResultData (vlessOptions s)
                  (remove_all PAD (encodeURLSafe (kp_secretKey kp)))
                  (remove_all PAD (encodeURLSafe (kp_publicKey kp)))
                  (remove_all PAD (encodeURLSafe (map f [0..<64])))
                  (remove_all PAD (encodeURLSafe pk))
        in s\<lparr>generatedVLESS := Some d, resultType := Some (str ''vlessEncryption''),
             resultData := Some (VlessData d), isResultsDialogOpen := True,
             isGeneratingVLESSEncryption := False,
             events := events s @ [Generation VlessEncryptionKind,
               ToastSuccess (Translated (str ''coreConfigModal.vlessEncryptionGenerated''))]\<rparr>)"
  using assms
  by (simp add: generateVLESSEncryption_def crypto_getRandomValues_def Uint8Array_def
      Let_def emit_def showResultDialog_def)

lemma generate_completes:
  assumes "completes k p s"
  shows "\<exists>d m. cache k (generate k p s) = Some d
      \<and> cached k (generate k p s)
      \<and> resultData (generate k p s) = Some d
      \<and> resultType (generate k p s) = Some (type_name k)
      \<and> \<not> in_progress k (generate k p s)
      \<and> events (generate k p s) = events s @ [Generation k, ToastSuccess m]"
proof (cases k)
  case KeyPairKind
  then obtain kp where "generateKeyPair p = Inr kp"
    using assms by (cases "generateKeyPair p") (auto simp add: completes_def)
  then show ?thesis using KeyPairKind
    by (simp add: keyPair_completes generate_def cache_def cached_def type_name_def
        in_progress_def Let_def)
next
  case ShortIdKind
  then obtain f where f: "random_source p = Inr f"
    using assms by (cases "random_source p") (auto simp add: completes_def)
  have "length (join [] (map (\<lambda>byte. padStart 2 (of_char CHR ''0'') (toString16 byte))
                           (map f [0..<8]))) = 16"
    by (simp only: shortId_length) simp
  then have "join [] (map (\<lambda>byte. padStart 2 (of_char CHR ''0'') (toString16 byte))
                           (map f [0..<8])) \<noteq> []"
    by auto
  then show ?thesis using ShortIdKind shortId_completes [OF f, of s]
    by (simp add: generate_def cache_def cached_def type_name_def in_progress_def Let_def)
next
  case ShadowsocksPasswordKind
  then obtain f where f: "random_source p = Inr f"
    and "known_method (selectedEncryptionMethod s)"
    using assms by (cases "random_source p") (auto simp add: completes_def)
  then obtain cipher where m: "cipher \<in> set SHADOWSOCKS_ENCRYPTION_METHODS"
    and v: "m_value cipher = selectedEncryptionMethod s"
    using known_method_find by blast
  show ?thesis using ShadowsocksPasswordKind shadowsocks_completes [OF m f, of s] v
    by (simp add: generate_def cache_def cached_def type_name_def in_progress_def Let_def)
next
  case SignatureKeyPairKind
  then obtain d where "generateMldsa65 p = Inr d"
    using assms by (cases "generateMldsa65 p") (auto simp add: completes_def)
  then show ?thesis using SignatureKeyPairKind
    by (simp add: mldsa65_completes generate_def cache_def cached_def type_name_def in_progress_def)
next
  case VlessEncryptionKind
  then have a: "\<not> isl (generateKeyPair p)" "\<not> mlkem_throws p"
    using assms by (simp_all add: completes_def)
  obtain kp where kp: "generateKeyPair p = Inr kp"
    using a by (cases "generateKeyPair p") auto
  obtain f where f: "random_source p = Inr f"
    using a by (cases "random_source p") (auto simp: mlkem_throws_def)
  obtain pk sk where d: "deriveKeyPair p (map f [0..<64]) = Inr (pk, sk)"
    using a f by (cases "deriveKeyPair p (map f [0..<64])") (auto simp: mlkem_throws_def)
  show ?thesis using VlessEncryptionKind vless_completes [OF kp f d, of s]
    by (simp add: generate_def cache_def cached_def type_name_def in_progress_def Let_def)
qed

lemma generation_calls_generate:
  "generation_calls k (generate k p s) = Suc (generation_calls k s)"
proof -
  have "\<exists>ts. events (generate k p s) = events s @ Generation k # ts
      \<and> count_list ts (Generation k) = 0"
  proof (cases k)
    case KeyPairKind
    then show ?thesis
      by (auto simp add: generate_def generatePrivateAndPublicKey_def Let_def emit_def
          showResultDialog_def split: sum.splits)
  next
    case ShortIdKind
    then show ?thesis
      by (auto simp add: generate_def generateShortId_def Let_def emit_def
          showResultDialog_def split: sum.splits)
  next
    case ShadowsocksPasswordKind
    then show ?thesis
      by (auto simp add: generate_def generateShadowsocksPassword_def Let_def emit_def
          showResultDialog_def split: sum.splits option.splits)
  next
    case SignatureKeyPairKind
    then show ?thesis
      by (auto simp add: generate_def handleGenerateMldsa65_def Let_def emit_def
          showResultDialog_def split: sum.splits)
  next
    case VlessEncryptionKind
    then show ?thesis
      by (auto simp add: generate_def generateVLESSEncryption_def Let_def emit_def
          showResultDialog_def split: sum.splits prod.splits)
  qed
  then show ?thesis by (auto simp add: generation_calls_def)
qed

lemma view_twice_after_generate:
  assumes "completes k p s"
  shows "generation_calls k (view k p2 (view k p1 (generate k p s))) = Suc (generation_calls k s)"
proof -
  let ?s1 = "generate k p s"
  have c1: "cached k ?s1" using generate_completes [OF assms] by blast
  let ?s2 = "showResultDialog (type_name k) (the (cache k ?s1)) ?s1"
  have v1: "view k p1 ?s1 = ?s2" by (rule view_cached [OF c1])
  have c2: "cached k ?s2" using c1 by (simp add: showResultDialog_keeps)
  have v2: "view k p2 ?s2 = showResultDialog (type_name k) (the (cache k ?s2)) ?s2"
    by (rule view_cached [OF c2])
  have "events (view k p2 (view k p1 ?s1)) = events ?s1"
    unfolding v1 v2 by (simp add: showResultDialog_keeps)
  then show ?thesis
    using generation_calls_generate [of k p s] by (simp add: generation_calls_def)
qed

lemma generate_fresh:
  assumes "completes k p s"
  shows "cache k (generate k p s) = fresh_value k p (selectedEncryptionMethod s) (vlessOptions s)"
proof (cases k)
  case KeyPairKind
  then obtain kp where kp: "generateKeyPair p = Inr kp"
    using assms by (cases "generateKeyPair p") (auto simp add: completes_def)
  show ?thesis using KeyPairKind kp
    by (simp add: keyPair_completes generate_def cache_def fresh_value_def Let_def)
next
  case ShortIdKind
  then obtain f where f: "random_source p = Inr f"
    using assms by (cases "random_source p") (auto simp add: completes_def)
  show ?thesis using ShortIdKind f shortId_completes [OF f, of s]
    by (simp add: generate_def cache_def fresh_value_def Let_def join_empty_sep comp_def)
next
  case ShadowsocksPasswordKind
  then obtain f where f: "random_source p = Inr f"
    and "known_method (selectedEncryptionMethod s)"
    using assms by (cases "random_source p") (auto simp add: completes_def)
  then obtain cipher where m: "cipher \<in> set SHADOWSOCKS_ENCRYPTION_METHODS"
    and v: "m_value cipher = selectedEncryptionMethod s"
    using known_method_find by blast
  have fm: "find (\<lambda>m. m_value m = selectedEncryptionMethod s) SHADOWSOCKS_ENCRYPTION_METHODS
      = Some cipher"
    using find_method [OF m] v by simp
  show ?thesis using ShadowsocksPasswordKind shadowsocks_completes [OF m f, of s] v f fm
    by (simp add: generate_def cache_def fresh_value_def Let_def fromCharCode_def comp_def)
next
  case SignatureKeyPairKind
  then obtain d where d: "generateMldsa65 p = Inr d"
    using assms by (cases "generateMldsa65 p") (auto simp add: completes_def)
  show ?thesis using SignatureKeyPairKind d
    by (simp add: mldsa65_completes generate_def cache_def fresh_value_def)
next
  case VlessEncryptionKind
  then have a: "\<not> isl (generateKeyPair p)" "\<not> mlkem_throws p"
    using assms by (simp_all add: completes_def)
  obtain kp where kp: "generateKeyPair p = Inr kp"
    using a by (cases "generateKeyPair p") auto
  obtain f where f: "random_source p = Inr f"
    using a by (cases "random_source p") (auto simp: mlkem_throws_def)
  obtain pk sk where d: "deriveKeyPair p (map f [0..<64]) = Inr (pk, sk)"
    using a f by (cases "deriveKeyPair p (map f [0..<64])") (auto simp: mlkem_throws_def)
  show ?thesis using VlessEncryptionKind vless_completes [OF kp f d, of s] kp f d
    by (simp add: generate_def cache_def fresh_value_def Let_def)
qed

lemma second_shortId:
  "fresh_value ShortIdKind second_platform sel opts = Some (ShortIdData (str ''ffffffffffffffff''))"
  by (simp add: fresh_value_def second_platform_def constant_bytes_def upt_rec padStart_def
      toString16_def hex_digits_def str_def)

lemma example_shortId:
  "generateShortId example_platform initial_state
     = initial_state\<lparr>generatedShortId := Some (str ''0001020304050607''),
          resultType := Some (str ''shortId''),
          resultData := Some (ShortIdData (str ''0001020304050607'')),
          isResultsDialogOpen := True,
          isGeneratingShortId := False,
          events := events initial_state @ [Generation ShortIdKind,
            ToastSuccess (Translated (str ''coreConfigModal.shortIdGenerated''))]\<rparr>"
proof -
  have r: "random_source example_platform = Inr counting_bytes"
    by (simp add: example_platform_def)
  have "join [] (map (\<lambda>byte. padStart 2 (of_char CHR ''0'') (toString16 byte))
                           (map counting_bytes [0..<8])) = str ''0001020304050607''"
    by (simp add: upt_rec counting_bytes_def padStart_def toString16_def hex_digits_def str_def)
  then show ?thesis
    using shortId_completes [OF r, of initial_state] by (simp add: Let_def)
qed

text \<open>
  Claim C7 as stated has regenerate always invoke generation, for every kind. With the
  VLESS result shown, the regenerate handler enters no generation function and leaves the
  cache entry as it is.
\<close>

theorem C7_counterexample:
  "resultType (generateVLESSEncryption example_platform initial_state)
      = Some (str ''vlessEncryption'')
   \<and> generation_calls VlessEncryptionKind
        (regenerate example_platform (generateVLESSEncryption example_platform initial_state))
      = generation_calls VlessEncryptionKind
          (generateVLESSEncryption example_platform initial_state)
   \<and> generatedVLESS
        (regenerate example_platform (generateVLESSEncryption example_platform initial_state))
      = generatedVLESS (generateVLESSEncryption example_platform initial_state)"
proof -
  have c: "completes VlessEncryptionKind example_platform initial_state"
    by (simp add: completes_def example_platform_def mlkem_throws_def)
  have t: "resultType (generateVLESSEncryption example_platform initial_state)
      = Some (type_name VlessEncryptionKind)"
    using generate_completes [OF c] by (auto simp add: generate_def)
  show ?thesis
    using t by (simp add: regenerate_vless generation_calls_def) (simp add: type_name_def)
qed

text \<open>
  Claim C7, amended. For every kind, view shows the cached value without entering the
  generation function when the cache has one. With no cached value, view enters the
  generation function for the four kinds other than VLESS and opens the options dialog
  for VLESS. Regenerate enters the generation function of the shown kind for those four
  kinds and opens the options dialog for VLESS, where generation is a separate action.
  Every generation call counts once. A call that completes overwrites the cache entry
  with the credential that the outputs of the platform determine, whatever the entry was
  before, and shows it; so does a regenerate of those four kinds that completes. After a
  completed call two views leave the call count of the kind at one more than before.
\<close>

theorem C7_view_and_regenerate:
  "(cached k s \<longrightarrow>
      view k p s = showResultDialog (type_name k) (the (cache k s)) s
      \<and> generation_calls k (view k p s) = generation_calls k s
      \<and> cache k (view k p s) = cache k s)
   \<and> (\<not> cached k s \<and> k \<noteq> VlessEncryptionKind \<longrightarrow> view k p s = generate k p s)
   \<and> (\<not> cached VlessEncryptionKind s \<longrightarrow>
        view VlessEncryptionKind p s = s\<lparr>isVlessAdvancedModalOpen := True\<rparr>)
   \<and> generation_calls k (generate k p s) = Suc (generation_calls k s)
   \<and> (k \<noteq> VlessEncryptionKind \<and> resultType s = Some (type_name k) \<longrightarrow>
        regenerate p s = generate k p s)
   \<and> (resultType s = Some (type_name VlessEncryptionKind) \<longrightarrow>
        regenerate p s = s\<lparr>isVlessAdvancedModalOpen := True, isResultsDialogOpen := False\<rparr>)
   \<and> (completes k p s \<longrightarrow>
        cached k (generate k p s)
        \<and> cache k (generate k p s) = resultData (generate k p s)
        \<and> cache k (generate k p s)
            = fresh_value k p (selectedEncryptionMethod s) (vlessOptions s)
        \<and> generation_calls k (view k p2 (view k p1 (generate k p s)))
            = Suc (generation_calls k s))
   \<and> (k \<noteq> VlessEncryptionKind \<and> resultType s = Some (type_name k) \<and> completes k p s \<longrightarrow>
        cache k (regenerate p s)
          = fresh_value k p (selectedEncryptionMethod s) (vlessOptions s))"
proof -
  have a: "cached k s \<longrightarrow>
      view k p s = showResultDialog (type_name k) (the (cache k s)) s
      \<and> generation_calls k (view k p s) = generation_calls k s
      \<and> cache k (view k p s) = cache k s"
    by (simp add: view_cached showResultDialog_keeps generation_calls_def)
  have g: "completes k p s \<longrightarrow>
        cached k (generate k p s)
        \<and> cache k (generate k p s) = resultData (generate k p s)
        \<and> cache k (generate k p s)
            = fresh_value k p (selectedEncryptionMethod s) (vlessOptions s)
        \<and> generation_calls k (view k p2 (view k p1 (generate k p s)))
            = Suc (generation_calls k s)"
    using generate_completes [of k p s] view_twice_after_generate [of k p s p2 p1]
      generate_fresh [of k p s] by auto
  have r: "k \<noteq> VlessEncryptionKind \<and> resultType s = Some (type_name k) \<and> completes k p s \<longrightarrow>
        cache k (regenerate p s)
          = fresh_value k p (selectedEncryptionMethod s) (vlessOptions s)"
    using regenerate_kind [of k s p] generate_fresh [of k p s] by auto
  show ?thesis
    using a g r view_not_cached [of k s p] view_vless_not_cached [of s p]
      generation_calls_generate [of k p s] regenerate_kind [of k s p] regenerate_vless [of s p]
    by blast
qed

text \<open>The amended claim C7 for the short ID, from the initial state.\<close>

theorem C7_view_and_regenerate_witness:
  "completes ShortIdKind example_platform initial_state
   \<and> \<not> cached ShortIdKind initial_state
   \<and> cached ShortIdKind (generate ShortIdKind example_platform initial_state)
   \<and> view ShortIdKind failing_platform initial_state
        = generate ShortIdKind failing_platform initial_state
   \<and> generation_calls ShortIdKind
        (view ShortIdKind failing_platform (generate ShortIdKind example_platform initial_state))
      = generation_calls ShortIdKind (generate ShortIdKind example_platform initial_state)
   \<and> generation_calls ShortIdKind
        (view ShortIdKind failing_platform (view ShortIdKind failing_platform
           (generate ShortIdKind example_platform initial_state))) = 1
   \<and> resultType (generate ShortIdKind example_platform initial_state)
        = Some (type_name ShortIdKind)
   \<and> regenerate example_platform (generate ShortIdKind example_platform initial_state)
        = generate ShortIdKind example_platform
            (generate ShortIdKind example_platform initial_state)
   \<and> \<not> cached VlessEncryptionKind initial_state
   \<and> view VlessEncryptionKind example_platform initial_state
        = initial_state\<lparr>isVlessAdvancedModalOpen := True\<rparr>
   \<and> resultType (generate VlessEncryptionKind example_platform initial_state)
        = Some (type_name VlessEncryptionKind)
   \<and> regenerate example_platform (generate VlessEncryptionKind example_platform initial_state)
        = (generate VlessEncryptionKind example_platform initial_state)
            \<lparr>isVlessAdvancedModalOpen := True, isResultsDialogOpen := False\<rparr>
   \<and> cache ShortIdKind (generate ShortIdKind example_platform initial_state)
        = Some (ShortIdData (str ''0001020304050607''))
   \<and> completes ShortIdKind second_platform
        (generate ShortIdKind example_platform initial_state)
   \<and> cache ShortIdKind
        (regenerate second_platform (generate ShortIdKind example_platform initial_state))
        = Some (ShortIdData (str ''ffffffffffffffff''))"
proof -
  have c: "completes ShortIdKind example_platform initial_state"
    by (simp add: completes_def example_platform_def)
  have cv: "completes VlessEncryptionKind example_platform initial_state"
    by (simp add: completes_def example_platform_def mlkem_throws_def)
  have n: "\<not> cached ShortIdKind initial_state" "\<not> cached VlessEncryptionKind initial_state"
    by (simp_all add: cached_def cache_def initial_state_def)
  have z: "generation_calls ShortIdKind initial_state = 0"
    by (simp add: generation_calls_def initial_state_def)
  have t: "resultType (generate ShortIdKind example_platform initial_state)
        = Some (type_name ShortIdKind)"
    using generate_completes [OF c] by blast
  have tv: "resultType (generate VlessEncryptionKind example_platform initial_state)
        = Some (type_name VlessEncryptionKind)"
    using generate_completes [OF cv] by blast
  have k: "ShortIdKind \<noteq> VlessEncryptionKind" by simp
  note w1 = C7_view_and_regenerate [where k = ShortIdKind and s = initial_state
      and p = failing_platform]
  note w2 = C7_view_and_regenerate [where k = ShortIdKind and s = initial_state
      and p = example_platform and ?p1.0 = failing_platform and ?p2.0 = failing_platform]
  note w3 = C7_view_and_regenerate [where k = ShortIdKind
      and s = "generate ShortIdKind example_platform initial_state" and p = example_platform]
  note w4 = C7_view_and_regenerate [where k = ShortIdKind
      and s = "generate ShortIdKind example_platform initial_state" and p = failing_platform]
  note w5 = C7_view_and_regenerate [where k = VlessEncryptionKind and s = initial_state
      and p = example_platform]
  note w6 = C7_view_and_regenerate [where k = VlessEncryptionKind
      and s = "generate VlessEncryptionKind example_platform initial_state"
      and p = example_platform]
  have g: "cached ShortIdKind (generate ShortIdKind example_platform initial_state)"
    and g2: "generation_calls ShortIdKind
        (view ShortIdKind failing_platform (view ShortIdKind failing_platform
           (generate ShortIdKind example_platform initial_state))) = 1"
    using w2 c z by simp_all
  have v0: "view ShortIdKind failing_platform initial_state
        = generate ShortIdKind failing_platform initial_state"
    using w1 n k by blast
  have v1: "generation_calls ShortIdKind
        (view ShortIdKind failing_platform (generate ShortIdKind example_platform initial_state))
      = generation_calls ShortIdKind (generate ShortIdKind example_platform initial_state)"
    using w4 g by blast
  have r: "regenerate example_platform (generate ShortIdKind example_platform initial_state)
        = generate ShortIdKind example_platform
            (generate ShortIdKind example_platform initial_state)"
    using w3 t k by blast
  have vv: "view VlessEncryptionKind example_platform initial_state
        = initial_state\<lparr>isVlessAdvancedModalOpen := True\<rparr>"
    using w5 n by blast
  have rv: "regenerate example_platform (generate VlessEncryptionKind example_platform initial_state)
        = (generate VlessEncryptionKind example_platform initial_state)
            \<lparr>isVlessAdvancedModalOpen := True, isResultsDialogOpen := False\<rparr>"
    using w6 tv by blast
  have old: "cache ShortIdKind (generate ShortIdKind example_platform initial_state)
        = Some (ShortIdData (str ''0001020304050607''))"
    by (simp add: generate_def example_shortId cache_def)
  have c2: "completes ShortIdKind second_platform
        (generate ShortIdKind example_platform initial_state)"
    by (simp add: completes_def second_platform_def)
  note w7 = C7_view_and_regenerate [where k = ShortIdKind
      and s = "generate ShortIdKind example_platform initial_state" and p = second_platform]
  have "cache ShortIdKind
        (regenerate second_platform (generate ShortIdKind example_platform initial_state))
      = fresh_value ShortIdKind second_platform
          (selectedEncryptionMethod (generate ShortIdKind example_platform initial_state))
          (vlessOptions (generate ShortIdKind example_platform initial_state))"
    using w7 t k c2 by blast
  then have new: "cache ShortIdKind
        (regenerate second_platform (generate ShortIdKind example_platform initial_state))
        = Some (ShortIdData (str ''ffffffffffffffff''))"
    by (simp only: second_shortId)
  show ?thesis using c n g v0 v1 g2 t r vv tv rv old c2 new by blast
qed

text \<open>
  Claim C1 as stated has every cached value absent after the dialog closes. After a short
  ID is generated and the dialog is closed, the short ID is still cached, and a later view
  shows it without generating.
\<close>

theorem C1_counterexample:
  "generatedShortId (cleanupOnModalClose False (generateShortId example_platform initial_state))
     = Some (str ''0001020304050607'')
   \<and> view ShortIdKind failing_platform
        (cleanupOnModalClose False (generateShortId example_platform initial_state))
     = showResultDialog (str ''shortId'') (ShortIdData (str ''0001020304050607''))
        (cleanupOnModalClose False (generateShortId example_platform initial_state))"
  by (simp add: example_shortId cleanupOnModalClose_def view_def viewShortId_def str_def)

text \<open>
  Claim C1, amended. The dialog-close transition leaves the cached value of every kind
  (key pair, short ID, Shadowsocks password, signature key material, VLESS result) as it
  was, so a later view of a cached kind shows the earlier credential without generating.
  Closing resets the result display, the VLESS options and variant, and the editor and
  validation state; when the dialog is open the effect changes nothing.
\<close>

theorem C1_close_keeps_generated_values:
  "generatedKeyPair (cleanupOnModalClose isDialogOpen s) = generatedKeyPair s
   \<and> generatedShortId (cleanupOnModalClose isDialogOpen s) = generatedShortId s
   \<and> generatedShadowsocksPassword (cleanupOnModalClose isDialogOpen s)
       = generatedShadowsocksPassword s
   \<and> generatedMldsa65 (cleanupOnModalClose isDialogOpen s) = generatedMldsa65 s
   \<and> generatedVLESS (cleanupOnModalClose isDialogOpen s) = generatedVLESS s
   \<and> cache k (cleanupOnModalClose isDialogOpen s) = cache k s
   \<and> events (cleanupOnModalClose isDialogOpen s) = events s
   \<and> (cached k s \<longrightarrow>
        generation_calls k (view k p (cleanupOnModalClose False s)) = generation_calls k s)
   \<and> cleanupOnModalClose False s
       = s\<lparr>isEditorFullscreen := False, isResultsDialogOpen := False, resultType := None,
            resultData := None, selectedVlessVariant := X25519,
            vlessOptions := createDefaultVlessOptions,
            validation := \<lparr>isValid = True, v_error = None\<rparr>, editorInstance := None,
            isEditorReady := False\<rparr>
   \<and> cleanupOnModalClose True s = s"
proof -
  have c: "cache k (cleanupOnModalClose b s) = cache k s" for b
    by (cases k) (simp_all add: cache_def cleanupOnModalClose_def)
  have e: "events (cleanupOnModalClose b s) = events s" for b
    by (simp add: cleanupOnModalClose_def)
  have v: "cached k s \<longrightarrow>
        generation_calls k (view k p (cleanupOnModalClose False s)) = generation_calls k s"
  proof
    assume "cached k s"
    then have "cached k (cleanupOnModalClose False s)"
      by (simp add: cached_def c)
    then show "generation_calls k (view k p (cleanupOnModalClose False s)) = generation_calls k s"
      by (simp add: view_cached showResultDialog_keeps generation_calls_def e)
  qed
  show ?thesis using c e v by (simp add: cleanupOnModalClose_def)
qed

text \<open>The amended claim C1 after one generated short ID.\<close>

theorem C1_close_keeps_generated_values_witness:
  "cached ShortIdKind (generateShortId example_platform initial_state)
   \<and> generation_calls ShortIdKind (view ShortIdKind failing_platform
        (cleanupOnModalClose False (generateShortId example_platform initial_state))) = 1
   \<and> cache ShortIdKind (cleanupOnModalClose False (generateShortId example_platform initial_state))
       = Some (ShortIdData (str ''0001020304050607''))"
proof -
  have c: "cached ShortIdKind (generateShortId example_platform initial_state)"
    by (simp add: example_shortId cached_def cache_def str_def)
  have n: "generation_calls ShortIdKind (generateShortId example_platform initial_state) = 1"
    unfolding example_shortId by (simp add: generation_calls_def initial_state_def)
  have d: "cache ShortIdKind (generateShortId example_platform initial_state)
       = Some (ShortIdData (str ''0001020304050607''))"
    by (simp add: example_shortId cache_def)
  note w = C1_close_keeps_generated_values [of False
        "generateShortId example_platform initial_state" ShortIdKind failing_platform]
  have g: "generation_calls ShortIdKind (view ShortIdKind failing_platform
        (cleanupOnModalClose False (generateShortId example_platform initial_state)))
      = generation_calls ShortIdKind (generateShortId example_platform initial_state)"
    using w c by blast
  have k: "cache ShortIdKind
        (cleanupOnModalClose False (generateShortId example_platform initial_state))
      = cache ShortIdKind (generateShortId example_platform initial_state)"
    using w by blast
  show ?thesis using c g k n d by simp
qed

text \<open>Claim C9 at a failing short-ID call that follows a completed one.\<close>

theorem C9_failing_generation_atomic_witness:
  "throws ShortIdKind failing_platform (generateShortId example_platform initial_state)
   \<and> cache ShortIdKind (generate ShortIdKind failing_platform
        (generateShortId example_platform initial_state))
       = Some (ShortIdData (str ''0001020304050607''))
   \<and> \<not> in_progress ShortIdKind (generate ShortIdKind failing_platform
        (generateShortId example_platform initial_state))"
proof -
  have t: "throws ShortIdKind failing_platform (generateShortId example_platform initial_state)"
    by (simp add: throws_def failing_platform_def)
  have d: "cache ShortIdKind (generateShortId example_platform initial_state)
       = Some (ShortIdData (str ''0001020304050607''))"
    by (simp add: example_shortId cache_def)
  show ?thesis
    using C9_failing_generation_atomic [OF t] t d by simp
qed

text \<open>
  Claim C10. Called with a method identifier outside the enumerated cipher set, the
  Shadowsocks generator changes nothing but the in-progress flag, which it clears: the
  cached password, the result dialog and every other field are as before, and the only
  event is the call itself, so no notification is produced.
\<close>

theorem C10_unknown_method_noop:
  "\<not> known_method v \<Longrightarrow>
     generateShadowsocksPassword p v s
       = s\<lparr>isGeneratingShadowsocksPassword := False,
            events := events s @ [Generation ShadowsocksPasswordKind]\<rparr>"
  by (simp add: generateShadowsocksPassword_def find_unknown_method Let_def emit_def)

text \<open>Claim C10 at the identifier \<^verbatim>\<open>aes-256-gcm\<close>.\<close>

theorem C10_unknown_method_noop_witness:
  "\<not> known_method (str ''aes-256-gcm'')
   \<and> generateShadowsocksPassword example_platform (str ''aes-256-gcm'')
        (generateShortId example_platform initial_state)
     = (generateShortId example_platform initial_state)
         \<lparr>isGeneratingShadowsocksPassword := False,
          events := events (generateShortId example_platform initial_state)
                      @ [Generation ShadowsocksPasswordKind]\<rparr>"
proof -
  have u: "\<not> known_method (str ''aes-256-gcm'')"
    by (simp add: known_method_def SHADOWSOCKS_ENCRYPTION_METHODS_def str_def)
  show ?thesis
    using C10_unknown_method_noop [OF u] u by simp
qed

section \<open>Properties of the inbound tags\<close>

lemma inbound_has_tag_eq:
  "e \<noteq> JNull \<Longrightarrow> e \<noteq> JUndefined \<Longrightarrow>
   inbound_has_tag e = Inr (case element_tag e of Some t \<Rightarrow> nonblank_tag t | None \<Rightarrow> False)"
  by (cases e)
    (auto simp add: inbound_has_tag_def get_prop_def element_tag_def nonblank_tag_def
      split: option.splits jsval.splits)

lemma js_filter_tags:
  "JNull \<notin> set es \<Longrightarrow> JUndefined \<notin> set es \<Longrightarrow>
   js_filter inbound_has_tag es
     = Inr (filter (\<lambda>e. case element_tag e of Some t \<Rightarrow> nonblank_tag t | None \<Rightarrow> False) es)"
  by (induction es) (auto simp add: inbound_has_tag_eq)

lemma js_map_tags:
  "\<forall>e \<in> set es. \<exists>t. element_tag e = Some t \<Longrightarrow>
   js_map (\<lambda>inbound. get_prop inbound (str ''tag'')) es
     = Inr (map (\<lambda>e. JString (the (element_tag e))) es)"
proof (induction es)
  case Nil
  then show ?case by simp
next
  case (Cons e es)
  then obtain t where t: "element_tag e = Some t" by auto
  then have "get_prop e (str ''tag'') = Inr (JString t)"
    by (cases e) (auto simp add: get_prop_def element_tag_def split: option.splits jsval.splits)
  then show ?case using Cons t by simp
qed

lemma map_filter_tags:
  "map (\<lambda>e. JString (the (element_tag e)))
     (filter (\<lambda>e. case element_tag e of Some t \<Rightarrow> keep t | None \<Rightarrow> False) es)
   = map JString (filter keep (List.map_filter element_tag es))"
  by (induction es) (auto simp add: List.map_filter_simps split: option.splits)

lemma get_prop_inbounds:
  "doc \<noteq> JNull \<Longrightarrow> doc \<noteq> JUndefined \<Longrightarrow>
   \<exists>v. get_prop doc (str ''inbounds'') = Inr v
     \<and> (case document_inbounds doc of
           Some es \<Rightarrow> v = JArray es
         | None \<Rightarrow> \<not> isArray v)"
  by (cases doc)
    (auto simp add: get_prop_def document_inbounds_def isArray_def
      split: option.splits jsval.splits)

lemma debouncedConfigChange_tags:
  assumes "no_null_inbound (JSON_parse v)"
  shows "debouncedConfigChange JSON_parse v s
     = s\<lparr>inboundTags := tags_where nonblank_tag (JSON_parse v)\<rparr>"
proof (cases "JSON_parse v")
  case (Inl e)
  then show ?thesis by (simp add: debouncedConfigChange_def tags_where_def)
next
  case (Inr doc)
  show ?thesis
  proof (cases "doc = JNull \<or> doc = JUndefined")
    case True
    then show ?thesis using Inr
      by (auto simp add: debouncedConfigChange_def tags_where_def get_prop_def
          document_inbounds_def)
  next
    case False
    then obtain x where x: "get_prop doc (str ''inbounds'') = Inr x"
      and xd: "case document_inbounds doc of Some es \<Rightarrow> x = JArray es | None \<Rightarrow> \<not> isArray x"
      using get_prop_inbounds [of doc] by auto
    show ?thesis
    proof (cases "document_inbounds doc")
      case None
      then have "\<not> isArray x" using xd by simp
      then show ?thesis using Inr x None
        by (simp add: debouncedConfigChange_def tags_where_def)
    next
      case (Some es)
      then have xa: "x = JArray es" using xd by simp
      have nn: "JNull \<notin> set es" "JUndefined \<notin> set es"
        using assms Inr Some by (simp_all add: no_null_inbound_def)
      let ?kept = "filter (\<lambda>e. case element_tag e of Some t \<Rightarrow> nonblank_tag t | None \<Rightarrow> False) es"
      have f: "js_filter inbound_has_tag es = Inr ?kept"
        by (rule js_filter_tags [OF nn])
      have "\<forall>e \<in> set ?kept. \<exists>t. element_tag e = Some t"
        by (auto split: option.splits)
      then have m: "js_map (\<lambda>inbound. get_prop inbound (str ''tag'')) ?kept
          = Inr (map (\<lambda>e. JString (the (element_tag e))) ?kept)"
        by (rule js_map_tags)
      show ?thesis using Inr x xa Some f m
        by (simp add: debouncedConfigChange_def tags_where_def truthy_def isArray_def
            map_filter_tags)
    qed
  qed
qed

lemma debouncedConfigChange_only_tags:
  "debouncedConfigChange JSON_parse v s
     = s\<lparr>inboundTags := inboundTags (debouncedConfigChange JSON_parse v s0)\<rparr>"
  by (simp add: debouncedConfigChange_def split: sum.splits jsval.splits)

lemma example_texts:
  \<open>example_parse (str ''{"inbounds":[{"tag":"A"},{"tag":""},{"notag":1}]}'') = Inr example_document\<close>
  \<open>example_parse (str ''{"inbounds":[{"tag":" "}]}'') = Inr blank_tag_document\<close>
  \<open>example_parse (str ''{"log":{}}'') = Inr (JObject [(str ''log'', JObject [])])\<close>
  \<open>example_parse (str ''{"inbounds":'') = Inl (Error (str ''SyntaxError''))\<close>
  by (simp_all add: example_parse_def str_def)

text \<open>
  Claim C8 as stated collects every tag that is a non-empty string. For the document
  \<^verbatim>\<open>{"inbounds":[{"tag":" "}]}\<close>, whose one tag is a single space, the dialog sets no
  tag, where the stated rule collects the tag.
\<close>

theorem C8_counterexample:
  \<open>inboundTags (debouncedConfigChange example_parse (str ''{"inbounds":[{"tag":" "}]}'') initial_state)
     = []
   \<and> tags_where nonempty_tag (example_parse (str ''{"inbounds":[{"tag":" "}]}''))
     = [JString (str '' '')]\<close>
proof -
  have n: "no_null_inbound (Inr blank_tag_document)"
    by (simp add: no_null_inbound_def blank_tag_document_def document_inbounds_def)
  have a: "tags_where nonblank_tag (Inr blank_tag_document) = []"
    by (simp add: tags_where_def blank_tag_document_def document_inbounds_def element_tag_def
        List.map_filter_simps nonblank_tag_def trim_def isWhiteSpace_def str_def)
  have b: "tags_where nonempty_tag (Inr blank_tag_document) = [JString (str '' '')]"
    by (simp add: tags_where_def blank_tag_document_def document_inbounds_def element_tag_def
        List.map_filter_simps nonempty_tag_def str_def)
  show ?thesis
    using n a b by (simp add: example_texts debouncedConfigChange_tags)
qed

text \<open>
  Claim C8, amended. The tag list set by \<^verbatim>\<open>debouncedConfigChange\<close> depends on the
  document text alone, and nothing else of the state changes. When no element of the
  \<^verbatim>\<open>inbounds\<close> array is \<^verbatim>\<open>null\<close>, the list is the \<^verbatim>\<open>tag\<close> of every element whose tag is a
  string that is not empty after trimming, in document order. The list is empty when the
  text does not parse and when the document has no \<^verbatim>\<open>inbounds\<close> array. The document
  \<^verbatim>\<open>{"inbounds":[{"tag":"A"},{"tag":""},{"notag":1}]}\<close> gives exactly the tag \<^verbatim>\<open>A\<close>.
\<close>

theorem C8_inbound_tags:
  "(no_null_inbound (JSON_parse v) \<longrightarrow>
      inboundTags (debouncedConfigChange JSON_parse v s)
        = tags_where nonblank_tag (JSON_parse v))
   \<and> debouncedConfigChange JSON_parse v s
        = s\<lparr>inboundTags := inboundTags (debouncedConfigChange JSON_parse v s0)\<rparr>
   \<and> (JSON_parse v = Inl e \<longrightarrow> inboundTags (debouncedConfigChange JSON_parse v s) = [])
   \<and> (JSON_parse v = Inr doc \<and> document_inbounds doc = None \<longrightarrow>
        inboundTags (debouncedConfigChange JSON_parse v s) = [])
   \<and> (JSON_parse v = Inr example_document \<longrightarrow>
        inboundTags (debouncedConfigChange JSON_parse v s) = [JString (str ''A'')])"
proof -
  have a: "no_null_inbound (JSON_parse v) \<longrightarrow>
      inboundTags (debouncedConfigChange JSON_parse v s)
        = tags_where nonblank_tag (JSON_parse v)"
    by (simp add: debouncedConfigChange_tags)
  have b: "JSON_parse v = Inl e \<longrightarrow> inboundTags (debouncedConfigChange JSON_parse v s) = []"
    using a by (auto simp add: no_null_inbound_def tags_where_def)
  have c: "JSON_parse v = Inr doc \<and> document_inbounds doc = None \<longrightarrow>
        inboundTags (debouncedConfigChange JSON_parse v s) = []"
    using a by (auto simp add: no_null_inbound_def tags_where_def)
  have n: "no_null_inbound (Inr example_document)"
    by (simp add: no_null_inbound_def example_document_def document_inbounds_def)
  have t: "tags_where nonblank_tag (Inr example_document) = [JString (str ''A'')]"
    by (simp add: tags_where_def example_document_def document_inbounds_def element_tag_def
        List.map_filter_simps nonblank_tag_def trim_def isWhiteSpace_def str_def)
  have d: "JSON_parse v = Inr example_document \<longrightarrow>
        inboundTags (debouncedConfigChange JSON_parse v s) = [JString (str ''A'')]"
    using a n t by auto
  show ?thesis
    using a b c d debouncedConfigChange_only_tags [of JSON_parse v s s0] by blast
qed

text \<open>The amended claim C8 at the example document and at a text that does not parse.\<close>

theorem C8_inbound_tags_witness:
  \<open>no_null_inbound (example_parse (str ''{"inbounds":[{"tag":"A"},{"tag":""},{"notag":1}]}''))
   \<and> inboundTags (debouncedConfigChange example_parse
        (str ''{"inbounds":[{"tag":"A"},{"tag":""},{"notag":1}]}'') initial_state)
      = [JString (str ''A'')]
   \<and> document_inbounds (JObject [(str ''log'', JObject [])]) = None
   \<and> inboundTags (debouncedConfigChange example_parse (str ''{"log":{}}'')
        (initial_state\<lparr>inboundTags := [JString (str ''A'')]\<rparr>)) = []
   \<and> inboundTags (debouncedConfigChange example_parse (str ''{"inbounds":'')
        (initial_state\<lparr>inboundTags := [JString (str ''A'')]\<rparr>)) = []\<close>
proof -
  have n: \<open>no_null_inbound (example_parse (str ''{"inbounds":[{"tag":"A"},{"tag":""},{"notag":1}]}''))\<close>
    by (simp add: example_texts no_null_inbound_def example_document_def document_inbounds_def)
  have d: "document_inbounds (JObject [(str ''log'', JObject [])]) = None"
    by (simp add: document_inbounds_def str_def)
  note w1 = C8_inbound_tags [where JSON_parse = example_parse and s = initial_state
      and v = \<open>str ''{"inbounds":[{"tag":"A"},{"tag":""},{"notag":1}]}''\<close>]
  note w2 = C8_inbound_tags [where JSON_parse = example_parse
      and s = "initial_state\<lparr>inboundTags := [JString (str ''A'')]\<rparr>"
      and v = \<open>str ''{"inbounds":''\<close> and e = "Error (str ''SyntaxError'')"]
  note w3 = C8_inbound_tags [where JSON_parse = example_parse
      and s = "initial_state\<lparr>inboundTags := [JString (str ''A'')]\<rparr>"
      and v = \<open>str ''{"log":{}}''\<close> and doc = "JObject [(str ''log'', JObject [])]"]
  show ?thesis using n d w1 w2 w3 example_texts by blast
qed

end
